theory Spec2Isabelle
  imports Main "HOL-Library.Sublist" "HOL-Library.AList"
begin

section \<open>Strings and the path helpers of the standard library\<close>

text \<open>
  Python strings are modelled as \<^typ>\<open>string\<close> (lists of 8-bit characters). \<open>str.lower\<close>
  is modelled on the ASCII letters: an upper-case letter (codes 65 to 90) gets bit 5 set
  (that is, 32 is added), every other character is unchanged.
\<close>

definition lower_char :: "char \<Rightarrow> char" where
  "lower_char c =
     (if 65 \<le> (of_char c :: nat) \<and> (of_char c :: nat) \<le> 90
      then (case c of Char b0 b1 b2 b3 b4 b5 b6 b7 \<Rightarrow> Char b0 b1 b2 b3 b4 True b6 b7)
      else c)"

definition lower :: "string \<Rightarrow> string" where
  "lower s = map lower_char s"

text \<open>
  \<open>s.split(sep)\<close> with a one-character separator: the result is never empty, and the
  empty string splits into one empty field.
\<close>

fun split_on :: "char \<Rightarrow> string \<Rightarrow> string list" where
  "split_on sep [] = [[]]"
| "split_on sep (c # cs) =
     (if c = sep then [] # split_on sep cs
      else (case split_on sep cs of [] \<Rightarrow> [[c]] | w # ws \<Rightarrow> (c # w) # ws))"

text \<open>\<open>x.lower().endswith(('.pdf', '.html'))\<close>, used by the resolver and by the scan.\<close>

definition endswith_doc :: "string \<Rightarrow> bool" where
  "endswith_doc s = (suffix ''.pdf'' (lower s) \<or> suffix ''.html'' (lower s))"

text \<open>\<open>'.pdf' in part.lower() or '.html' in part.lower()\<close>.\<close>

definition mentions_doc :: "string \<Rightarrow> bool" where
  "mentions_doc part = (sublist ''.pdf'' (lower part) \<or> sublist ''.html'' (lower part))"

text \<open>
  \<open>os.path.basename\<close> (POSIX): everything after the last slash.
\<close>

definition basename :: "string \<Rightarrow> string" where
  "basename p = rev (takeWhile (\<lambda>c. c \<noteq> CHR ''/'') (rev p))"

text \<open>
  \<open>os.path.splitext(p)[0]\<close> (POSIX): the extension starts at the last dot of the last
  path component, unless that component has only dots before it; leading dots of the
  component are not an extension.
\<close>

definition splitext_root :: "string \<Rightarrow> string" where
  "splitext_root p =
     (let nm = basename p;
          dir = take (length p - length nm) p;
          before = rev (tl (dropWhile (\<lambda>c. c \<noteq> CHR ''.'') (rev nm)))
      in if CHR ''.'' \<in> set nm \<and> list_ex (\<lambda>c. c \<noteq> CHR ''.'') before then dir @ before else p)"

text \<open>\<open>os.path.join(a, b)\<close> (POSIX) for two components.\<close>

definition path_join :: "string \<Rightarrow> string \<Rightarrow> string" where
  "path_join a b =
     (if prefix ''/'' b then b
      else if a = [] \<or> suffix ''/'' a then a @ b
      else a @ ''/'' @ b)"

section \<open>Citekey resolver\<close>

text \<open>
  The inner loop of \<open>parse_file_path_from_entry\<close>: the first segment, scanning the
  colon-separated segments backwards, whose lower-case form ends with \<open>.pdf\<close> or \<open>.html\<close>.
\<close>

definition scan_segments :: "string \<Rightarrow> string option" where
  "scan_segments part = find endswith_doc (rev (split_on CHR '':'' part))"

text \<open>The outer loop over the semicolon-separated parts.\<close>

fun scan_parts :: "string list \<Rightarrow> string option" where
  "scan_parts [] = None"
| "scan_parts (part # parts) =
     (if mentions_doc part
      then (case scan_segments part of
              Some segment \<Rightarrow> Some segment
            | None \<Rightarrow> scan_parts parts)
      else scan_parts parts)"

text \<open>
  The argument is \<open>None\<close> when the field is absent (\<open>entry.get('file')\<close> gave \<open>None\<close>);
  \<open>not file_field_string\<close> holds for \<open>None\<close> and for the empty string.
\<close>

definition parse_file_path_from_entry :: "string option \<Rightarrow> string option" where
  "parse_file_path_from_entry file_field_string =
     (case file_field_string of
        None \<Rightarrow> None
      | Some s \<Rightarrow> if s = [] then None else scan_parts (split_on CHR '';'' s))"

section \<open>Building the citekey index\<close>

text \<open>
  A bibliography entry is a dictionary from field names to strings. The index is a Python
  dictionary, modelled as an association list in insertion order: \<open>mapping[k] = v\<close>
  replaces the value of an existing key in place and appends a new key at the end, which
  is \<^const>\<open>AList.update\<close>; \<open>mapping.get(k, d)\<close> reads it with \<^const>\<open>map_of\<close>.
\<close>

type_synonym entry = "string \<rightharpoonup> string"

type_synonym citekey_map = "(string \<times> string) list"

text \<open>
  What the program prints, one constructor for each message of the source (consecutive
  prints of one diagnostic are one message); the arguments are the values formatted into
  the text. By line of the source: \<open>ConfiguredFromEnv\<close> 43, \<open>ConfiguredFromScript\<close> 46,
  \<open>ApiKeyNotFound\<close> 48 to 51, \<open>PipelineInitialized\<close> 112, \<open>DirectoriesSetUp\<close> 108,
  \<open>PromptLoaded\<close> 120, \<open>PromptNotFound\<close> 122 and 123, \<open>BibNotFound\<close> 132 and 133,
  \<open>BibParseFailed\<close> 136, \<open>NoValidFileEntries\<close> 99, \<open>UploadingManual\<close> 143,
  \<open>ManualUploaded\<close> 145, \<open>ManualNotFound\<close> 147, \<open>ManualUploadFailed\<close> 149,
  \<open>InputDirMissing\<close> 156, \<open>NoNewPapers\<close> 160, \<open>FoundFiles\<close> 163, \<open>Processing\<close> 171,
  \<open>CitekeyFallback\<close> 175, \<open>FoundCitekey\<close> 177, \<open>UploadingPaper\<close> 181,
  \<open>PaperUploaded\<close> 183, \<open>GeneratingSummary\<close> 186, \<open>SavingSummary\<close> 195,
  \<open>SummaryAppended\<close> 201, \<open>ArchivingFile\<close> 204, \<open>MovedFile\<close> 207, \<open>DeletingPaper\<close> 210,
  \<open>ProcessingError\<close> 214, \<open>SkippingFile\<close> 215, \<open>DeletingManual\<close> 223,
  \<open>PipelineFinished\<close> 226.
\<close>

datatype message =
    ConfiguredFromEnv
  | ConfiguredFromScript
  | ApiKeyNotFound
  | PipelineInitialized
  | DirectoriesSetUp
  | PromptLoaded
  | PromptNotFound
  | BibNotFound
  | BibParseFailed string
  | NoValidFileEntries
  | UploadingManual
  | ManualUploaded string
  | ManualNotFound
  | ManualUploadFailed string
  | InputDirMissing
  | NoNewPapers
  | FoundFiles "string list"
  | Processing string
  | CitekeyFallback string
  | FoundCitekey string
  | UploadingPaper
  | PaperUploaded string
  | GeneratingSummary
  | SavingSummary
  | SummaryAppended string
  | ArchivingFile
  | MovedFile string
  | DeletingPaper
  | ProcessingError string string
  | SkippingFile
  | DeletingManual
  | PipelineFinished

text \<open>The object returned by \<open>genai.upload_file\<close>: its \<open>name\<close> and its \<open>uri\<close>.\<close>

datatype handle = Handle (handle_name: string) (handle_uri: string)

text \<open>An element of the list given to \<open>generate_content\<close>.\<close>

datatype part = Text string | FileRef handle

text \<open>
  The object returned by \<open>generate_content\<close>; reading its \<open>text\<close> property may raise
  (\<open>Inl\<close>).
\<close>

datatype response = Response (response_text: "string + string")

text \<open>
  Every call the program makes to the outside, in the order it makes them. An event
  records that the call was made; whether it succeeded is decided by the environment.
\<close>

datatype event =
    Print message
  | Configure string
  | MakeDirs string
  | UploadFile string string
  | InitModel string
  | GenerateContent "part list" nat
  | OpenAppend string
  | WriteSink string
  | MoveFile string string
  | DeleteFile string
  | Sleep nat

text \<open>The body of the loop of \<open>create_pdf_to_citekey_map\<close>.\<close>

definition add_entry :: "entry \<Rightarrow> citekey_map \<Rightarrow> citekey_map" where
  "add_entry entry mapping =
     (case (entry ''ID'', entry ''file'') of
        (Some citekey, Some file_field) \<Rightarrow>
          if citekey = [] \<or> file_field = [] then mapping
          else (case parse_file_path_from_entry (Some file_field) of
                  None \<Rightarrow> mapping
                | Some pdf_path \<Rightarrow>
                    if pdf_path = [] then mapping
                    else AList.update (basename pdf_path) citekey mapping)
      | _ \<Rightarrow> mapping)"

fun build_mapping :: "entry list \<Rightarrow> citekey_map \<Rightarrow> citekey_map" where
  "build_mapping [] mapping = mapping"
| "build_mapping (entry # entries) mapping = build_mapping entries (add_entry entry mapping)"

text \<open>
  What one entry contributes: the pair the loop body adds to an empty index, if it adds
  one.
\<close>

definition entry_binding :: "entry \<Rightarrow> (string \<times> string) option" where
  "entry_binding entry = (case add_entry entry [] of [] \<Rightarrow> None | kv # _ \<Rightarrow> Some kv)"

text \<open>The function returns the index; the second component is what it printed.\<close>

definition create_pdf_to_citekey_map :: "entry list \<Rightarrow> citekey_map \<times> event list" where
  "create_pdf_to_citekey_map entries =
     (let mapping = build_mapping entries []
      in (mapping, if mapping = [] then [Print NoValidFileEntries] else []))"

section \<open>The environment of a run\<close>

definition PAPERS_TO_READ_DIR :: string where
  "PAPERS_TO_READ_DIR = ''papers_to_read''"

definition READ_PAPERS_DIR :: string where
  "READ_PAPERS_DIR = ''read_papers''"

definition BIBTEX_FILE_PATH :: string where
  "BIBTEX_FILE_PATH = ''references.bib''"

definition MASTER_PROMPT_FILE :: string where
  "MASTER_PROMPT_FILE = ''assets/master_prompt.txt''"

definition SIUNITX_MANUAL :: string where
  "SIUNITX_MANUAL = ''assets/siunitx.pdf''"

definition SUMMARIES_FILE :: string where
  "SUMMARIES_FILE = ''paper_summaries.txt''"

definition API_KEY_PLACEHOLDER :: string where
  "API_KEY_PLACEHOLDER = ''PASTE_YOUR_GEMINI_API_KEY_HERE''"

definition MODEL :: string where
  "MODEL = ''gemini-2.5-pro''"

text \<open>
  Reading from the file system: \<open>FileNotFoundError\<close>, another exception (with its text),
  or the value read.
\<close>

datatype 'a io_result = FileNotFound | OtherError string | Ok 'a

text \<open>
  What the outside world answers. An exception is \<open>Inl\<close> of its text, or \<open>Some\<close> of its
  text for a call that returns nothing. \<open>env_api_key\<close> is \<open>os.getenv("GEMINI_API_KEY")\<close>,
  \<open>makedirs_error\<close> the outcome of \<open>os.makedirs\<close> by directory, \<open>prompt_file\<close> the
  result of opening and reading the prompt, \<open>bib_file\<close> the result of opening and
  parsing the bibliography, \<open>manual_exists\<close> is \<open>os.path.exists(SIUNITX_MANUAL)\<close>,
  \<open>upload_file\<close> is \<open>genai.upload_file\<close> by path and display name, \<open>listdir\<close> is
  \<open>os.listdir(PAPERS_TO_READ_DIR)\<close>, \<open>generate_content\<close> is
  \<open>model.generate_content\<close> by payload, \<open>sink_open_error\<close> the outcome of opening the
  output file, indexed by the document being processed, \<open>move_error\<close> the outcome of
  \<open>shutil.move\<close> by source and destination, \<open>delete_error\<close> the outcome of
  \<open>genai.delete_file\<close> by handle name. Taken to succeed: \<open>print\<close>, \<open>genai.configure\<close>,
  \<open>os.path.exists\<close>, the construction of the model object, \<open>time.sleep\<close>, and a write
  to the opened output file.
\<close>

record env =
  env_api_key :: "string option"
  makedirs_error :: "string \<Rightarrow> string option"
  prompt_file :: "string io_result"
  bib_file :: "entry list io_result"
  manual_exists :: bool
  upload_file :: "string \<Rightarrow> string \<Rightarrow> string + handle"
  listdir :: "string list io_result"
  generate_content :: "part list \<Rightarrow> string + response"
  sink_open_error :: "string \<Rightarrow> string option"
  move_error :: "string \<Rightarrow> string \<Rightarrow> string option"
  delete_error :: "string \<Rightarrow> string option"

text \<open>How \<open>main\<close> ends: it returns, or an exception leaves it.\<close>

datatype outcome = Returned | Raised string

section \<open>The orchestrator\<close>

text \<open>\<open>setup_directories\<close>: three \<open>os.makedirs\<close>, none of them guarded.\<close>

definition setup_directories :: "env \<Rightarrow> event list \<times> string option" where
  "setup_directories env =
     (case makedirs_error env PAPERS_TO_READ_DIR of
        Some e \<Rightarrow> ([MakeDirs PAPERS_TO_READ_DIR], Some e)
      | None \<Rightarrow>
         (case makedirs_error env READ_PAPERS_DIR of
            Some e \<Rightarrow> ([MakeDirs PAPERS_TO_READ_DIR, MakeDirs READ_PAPERS_DIR], Some e)
          | None \<Rightarrow>
             (case makedirs_error env ''assets'' of
                Some e \<Rightarrow>
                  ([MakeDirs PAPERS_TO_READ_DIR, MakeDirs READ_PAPERS_DIR, MakeDirs ''assets''],
                   Some e)
              | None \<Rightarrow>
                  ([MakeDirs PAPERS_TO_READ_DIR, MakeDirs READ_PAPERS_DIR, MakeDirs ''assets'',
                    Print DirectoriesSetUp], None))))"

text \<open>
  The optional upload of the reference manual. The result is the value of
  \<open>siunitx_manual_file\<close> afterwards; a handle object is truthy, so \<open>if siunitx_manual_file\<close>
  is the test for \<open>Some\<close>.
\<close>

definition upload_manual :: "env \<Rightarrow> handle option \<times> event list" where
  "upload_manual env =
     (if manual_exists env
      then (case upload_file env SIUNITX_MANUAL (basename SIUNITX_MANUAL) of
              Inr siunitx_manual_file \<Rightarrow>
                (Some siunitx_manual_file,
                 [Print UploadingManual, UploadFile SIUNITX_MANUAL (basename SIUNITX_MANUAL),
                  Print (ManualUploaded (handle_uri siunitx_manual_file))])
            | Inl e \<Rightarrow>
                (None,
                 [Print UploadingManual, UploadFile SIUNITX_MANUAL (basename SIUNITX_MANUAL),
                  Print (ManualUploadFailed e)]))
      else (None, [Print ManualNotFound]))"

text \<open>
  Lines 173 to 177: the key of a document and the notice printed for it.
\<close>

definition resolve_citekey :: "citekey_map \<Rightarrow> string \<Rightarrow> string \<times> message" where
  "resolve_citekey pdf_citekey_map pdf_file =
     (let citekey = (case map_of pdf_citekey_map pdf_file of
                       Some k \<Rightarrow> k
                     | None \<Rightarrow> splitext_root pdf_file)
      in (citekey,
          if citekey = splitext_root pdf_file then CitekeyFallback pdf_file
          else FoundCitekey citekey))"

definition prompt_parts :: "string \<Rightarrow> handle option \<Rightarrow> handle \<Rightarrow> part list" where
  "prompt_parts master_prompt siunitx_manual_file uploaded_file =
     [Text master_prompt]
     @ (case siunitx_manual_file of Some m \<Rightarrow> [FileRef m] | None \<Rightarrow> [])
     @ [FileRef uploaded_file]"

definition summary_header :: "string \<Rightarrow> string" where
  "summary_header citekey =
     CHR 0x5C # ''section*{'' @ citekey @ ''}'' @ [CHR 0x0A, CHR 0x0A]"

definition summary_separator :: string where
  "summary_separator = [CHR 0x0A, CHR 0x0A] @ ''---'' @ [CHR 0x0A, CHR 0x0A]"

text \<open>
  The body of the \<open>try\<close> for one document: the calls made, and the exception that ended
  it, if any.
\<close>

definition try_body ::
  "env \<Rightarrow> string \<Rightarrow> handle option \<Rightarrow> string \<Rightarrow> string \<Rightarrow> event list \<times> string option"
where
  "try_body env master_prompt siunitx_manual_file pdf_file citekey =
     (let pdf_path = path_join PAPERS_TO_READ_DIR pdf_file;
          ev1 = [Print UploadingPaper, UploadFile pdf_path pdf_file]
      in case upload_file env pdf_path pdf_file of
           Inl e \<Rightarrow> (ev1, Some e)
         | Inr uploaded_file \<Rightarrow>
            (let parts = prompt_parts master_prompt siunitx_manual_file uploaded_file;
                 ev2 = ev1 @ [Print (PaperUploaded (handle_uri uploaded_file)),
                              Print GeneratingSummary, GenerateContent parts 600]
             in case generate_content env parts of
                  Inl e \<Rightarrow> (ev2, Some e)
                | Inr response \<Rightarrow>
                   (let ev3 = ev2 @ [Print SavingSummary, OpenAppend SUMMARIES_FILE]
                    in case sink_open_error env pdf_file of
                         Some e \<Rightarrow> (ev3, Some e)
                       | None \<Rightarrow>
                          (let ev4 = ev3 @ [WriteSink (summary_header citekey)]
                           in case response_text response of
                                Inl e \<Rightarrow> (ev4, Some e)
                              | Inr text \<Rightarrow>
                                 (let destination_path = path_join READ_PAPERS_DIR pdf_file;
                                      ev5 = ev4 @ [WriteSink text, WriteSink summary_separator,
                                                   Print (SummaryAppended citekey),
                                                   Print ArchivingFile,
                                                   MoveFile pdf_path destination_path]
                                  in case move_error env pdf_path destination_path of
                                       Some e \<Rightarrow> (ev5, Some e)
                                     | None \<Rightarrow>
                                        (ev5 @ [Print (MovedFile pdf_file), Print DeletingPaper,
                                                DeleteFile (handle_name uploaded_file)],
                                         delete_error env (handle_name uploaded_file)))))))"

text \<open>
  One iteration of the loop: the notice, the \<open>try\<close>, and then either the \<open>except\<close>
  branch (report, \<open>continue\<close>) or the pause.
\<close>

definition process_file ::
  "env \<Rightarrow> string \<Rightarrow> handle option \<Rightarrow> citekey_map \<Rightarrow> string \<Rightarrow> event list"
where
  "process_file env master_prompt siunitx_manual_file pdf_citekey_map pdf_file =
     (case resolve_citekey pdf_citekey_map pdf_file of
        (citekey, notice) \<Rightarrow>
          (case try_body env master_prompt siunitx_manual_file pdf_file citekey of
             (evs, err) \<Rightarrow>
               [Print (Processing pdf_file), Print notice] @ evs
               @ (case err of
                    Some e \<Rightarrow> [Print (ProcessingError pdf_file e), Print SkippingFile]
                  | None \<Rightarrow> [Sleep 2])))"

fun process_files ::
  "env \<Rightarrow> string \<Rightarrow> handle option \<Rightarrow> citekey_map \<Rightarrow> string list \<Rightarrow> event list"
where
  "process_files env master_prompt siunitx_manual_file pdf_citekey_map [] = []"
| "process_files env master_prompt siunitx_manual_file pdf_citekey_map (pdf_file # rest) =
     process_file env master_prompt siunitx_manual_file pdf_citekey_map pdf_file
     @ process_files env master_prompt siunitx_manual_file pdf_citekey_map rest"

text \<open>Lines 222 to 226, after the loop; the delete is outside every \<open>try\<close>.\<close>

definition finish :: "env \<Rightarrow> handle option \<Rightarrow> event list \<times> outcome" where
  "finish env siunitx_manual_file =
     (case siunitx_manual_file of
        None \<Rightarrow> ([Print PipelineFinished], Returned)
      | Some m \<Rightarrow>
         (case delete_error env (handle_name m) of
            Some e \<Rightarrow> ([Print DeletingManual, DeleteFile (handle_name m)], Raised e)
          | None \<Rightarrow>
              ([Print DeletingManual, DeleteFile (handle_name m), Print PipelineFinished],
               Returned)))"

definition main :: "env \<Rightarrow> event list \<times> outcome" where
  "main env =
     (let ev0 = [Print PipelineInitialized] in
      case setup_directories env of
        (evd, Some e) \<Rightarrow> (ev0 @ evd, Raised e)
      | (evd, None) \<Rightarrow>
         (let ev1 = ev0 @ evd in
          case prompt_file env of
            FileNotFound \<Rightarrow> (ev1 @ [Print PromptNotFound], Returned)
          | OtherError e \<Rightarrow> (ev1, Raised e)
          | Ok master_prompt \<Rightarrow>
             (let ev2 = ev1 @ [Print PromptLoaded] in
              case bib_file env of
                FileNotFound \<Rightarrow> (ev2 @ [Print BibNotFound], Returned)
              | OtherError e \<Rightarrow> (ev2 @ [Print (BibParseFailed e)], Returned)
              | Ok entries \<Rightarrow>
                 (case create_pdf_to_citekey_map entries of
                    (pdf_citekey_map, evm) \<Rightarrow>
                      (case upload_manual env of
                         (siunitx_manual_file, eva) \<Rightarrow>
                           (let ev3 = ev2 @ evm @ eva in
                            case listdir env of
                              FileNotFound \<Rightarrow> (ev3 @ [Print InputDirMissing], Returned)
                            | OtherError e \<Rightarrow> (ev3, Raised e)
                            | Ok names \<Rightarrow>
                               (let pdf_files = filter endswith_doc names in
                                if pdf_files = [] then (ev3 @ [Print NoNewPapers], Returned)
                                else
                                  (case finish env siunitx_manual_file of
                                     (evf, out) \<Rightarrow>
                                       (ev3 @ [Print (FoundFiles pdf_files), InitModel MODEL]
                                        @ process_files env master_prompt siunitx_manual_file
                                            pdf_citekey_map pdf_files
                                        @ evf, out)))))))))"

text \<open>
  The script: the module-level configuration, then \<open>main()\<close>. The second component is
  the exit status of the process: \<open>sys.exit(1)\<close> gives 1, a \<open>main\<close> that returns gives 0,
  an exception that leaves \<open>main\<close> gives 1.
\<close>

definition exit_status :: "outcome \<Rightarrow> nat" where
  "exit_status out = (case out of Returned \<Rightarrow> 0 | Raised e \<Rightarrow> 1)"

definition run_script :: "env \<Rightarrow> event list \<times> nat" where
  "run_script env =
     (case (case env_api_key env of
              Some api_key \<Rightarrow>
                if api_key \<noteq> [] then Some [Configure api_key, Print ConfiguredFromEnv]
                else None
            | None \<Rightarrow> None) of
        Some evc \<Rightarrow> (case main env of (evs, out) \<Rightarrow> (evc @ evs, exit_status out))
      | None \<Rightarrow>
          if API_KEY_PLACEHOLDER \<noteq> ''PASTE_YOUR_GEMINI_API_KEY_HERE''
          then (case main env of
                  (evs, out) \<Rightarrow>
                    ([Configure API_KEY_PLACEHOLDER, Print ConfiguredFromScript] @ evs,
                     exit_status out))
          else ([Print ApiKeyNotFound], 1))"

section \<open>Reading a trace\<close>

text \<open>The content of the output file after the writes of a trace.\<close>

fun sink_after :: "string \<Rightarrow> event list \<Rightarrow> string" where
  "sink_after sink [] = sink"
| "sink_after sink (WriteSink s # evs) = sink_after (sink @ s) evs"
| "sink_after sink (_ # evs) = sink_after sink evs"

text \<open>
  The events of the loop: announcing a document, uploading it, the generation request,
  opening and writing the output file, moving a file. An upload of the reference manual
  is not one of them.
\<close>

fun document_event :: "event \<Rightarrow> bool" where
  "document_event (Print (Processing f)) = True"
| "document_event (UploadFile p d) = (p \<noteq> SIUNITX_MANUAL)"
| "document_event (GenerateContent ps t) = True"
| "document_event (OpenAppend p) = True"
| "document_event (WriteSink s) = True"
| "document_event (MoveFile a b) = True"
| "document_event _ = False"

text \<open>The payloads of the generation requests of a trace, in order.\<close>

fun generate_requests :: "event list \<Rightarrow> part list list" where
  "generate_requests [] = []"
| "generate_requests (GenerateContent ps t # evs) = ps # generate_requests evs"
| "generate_requests (_ # evs) = generate_requests evs"

text \<open>The handle names of the remote deletes of a trace, in order.\<close>

fun delete_calls :: "event list \<Rightarrow> string list" where
  "delete_calls [] = []"
| "delete_calls (DeleteFile n # evs) = n # delete_calls evs"
| "delete_calls (_ # evs) = delete_calls evs"

text \<open>The handles of the documents of a list whose upload succeeds, in order.\<close>

fun uploaded_handles :: "env \<Rightarrow> string list \<Rightarrow> handle list" where
  "uploaded_handles env [] = []"
| "uploaded_handles env (pdf_file # rest) =
     (case upload_file env (path_join PAPERS_TO_READ_DIR pdf_file) pdf_file of
        Inr h \<Rightarrow> h # uploaded_handles env rest
      | Inl e \<Rightarrow> uploaded_handles env rest)"

section \<open>Example runs\<close>

text \<open>
  Four bibliography entries: two whose files have the same basename, one with no file
  field, one for another file.
\<close>

definition example_entry :: entry where
  "example_entry =
     [''ID'' \<mapsto> ''hayes2002distributed'', ''file'' \<mapsto> '':papers/hayes2002.pdf:PDF'']"

definition example_entry_dup :: entry where
  "example_entry_dup =
     [''ID'' \<mapsto> ''hayes2002b'', ''file'' \<mapsto> '':archive/hayes2002.pdf:PDF'']"

definition example_entry_nofile :: entry where
  "example_entry_nofile = [''ID'' \<mapsto> ''knuth1984'']"

definition example_entry_other :: entry where
  "example_entry_other =
     [''ID'' \<mapsto> ''smith2010'', ''file'' \<mapsto> ''Full Text:web/smith.HTML:text/html'']"

text \<open>
  An environment in which every call succeeds: one bibliography entry, the reference
  manual present, three names in the input directory of which two are documents.
\<close>

definition example_upload :: "string \<Rightarrow> string \<Rightarrow> string + handle" where
  "example_upload path display_name = Inr (Handle (''files/'' @ display_name) (''uri/'' @ path))"

definition example_env :: env where
  "example_env =
     \<lparr> env_api_key = Some ''secret'',
       makedirs_error = (\<lambda>d. None),
       prompt_file = Ok ''Summarise the paper.'',
       bib_file = Ok [example_entry],
       manual_exists = True,
       upload_file = example_upload,
       listdir = Ok [''hayes2002.pdf'', ''notes.txt'', ''smith.HTML''],
       generate_content = (\<lambda>ps. Inr (Response (Inr ''A summary.''))),
       sink_open_error = (\<lambda>f. None),
       move_error = (\<lambda>a b. None),
       delete_error = (\<lambda>n. None) \<rparr>"

text \<open>The same, but generation fails for the first document.\<close>

definition example_generate :: "part list \<Rightarrow> string + response" where
  "example_generate ps =
     (if FileRef (Handle ''files/hayes2002.pdf'' ''uri/papers_to_read/hayes2002.pdf'') \<in> set ps
      then Inl ''quota exceeded''
      else Inr (Response (Inr ''A summary.'')))"

section \<open>Splitting and searching strings\<close>

lemma split_on_not_Nil: "split_on sep s \<noteq> []"
  by (induction s) (auto split: list.splits)

lemma split_on_no_sep: "sep \<notin> set s \<Longrightarrow> split_on sep s = [s]"
  by (induction s) auto

lemma split_on_append: "split_on sep (a @ sep # b) = split_on sep a @ split_on sep b"
proof (induction a)
  case Nil
  show ?case by simp
next
  case (Cons c a)
  obtain w ws where "split_on sep a = w # ws"
    using split_on_not_Nil [of sep a] by (cases "split_on sep a") auto
  with Cons show ?case by simp
qed

lemma split_on_hd_prefix: "split_on sep s = w # ws \<Longrightarrow> prefix w s"
proof (induction s arbitrary: w ws)
  case Nil
  then show ?case by simp
next
  case (Cons c s)
  then show ?case
    by (cases "split_on sep s") (auto split: if_splits)
qed

lemma split_on_sublist: "p \<in> set (split_on sep s) \<Longrightarrow> sublist p s"
proof (induction s arbitrary: p)
  case Nil
  then show ?case by simp
next
  case (Cons c s)
  show ?case
  proof (cases "c = sep")
    case True
    with Cons.prems have "p = [] \<or> p \<in> set (split_on sep s)" by auto
    then show ?thesis using Cons.IH by (auto simp: sublist_Cons_right)
  next
    case False
    obtain w ws where ws: "split_on sep s = w # ws"
      using split_on_not_Nil [of sep s] by (cases "split_on sep s") auto
    with False Cons.prems have "p = c # w \<or> p \<in> set ws" by auto
    then show ?thesis
    proof
      assume p: "p = c # w"
      have "prefix w s" using ws by (rule split_on_hd_prefix)
      then show ?thesis using p by (simp add: sublist_Cons_right)
    next
      assume "p \<in> set ws"
      then show ?thesis using Cons.IH ws by (auto simp: sublist_Cons_right)
    qed
  qed
qed

lemma lower_sublist: "sublist p s \<Longrightarrow> sublist (lower p) (lower s)"
  unfolding lower_def by (rule map_mono_sublist)

lemma mentions_doc_mono: "sublist p s \<Longrightarrow> mentions_doc p \<Longrightarrow> mentions_doc s"
proof -
  assume ps: "sublist p s" and m: "mentions_doc p"
  have l: "sublist (lower p) (lower s)" using ps by (rule lower_sublist)
  from m show "mentions_doc s"
    unfolding mentions_doc_def
  proof
    assume "sublist ''.pdf'' (lower p)"
    then have "sublist ''.pdf'' (lower s)" using l by (rule sublist_order.order_trans)
    then show "sublist ''.pdf'' (lower s) \<or> sublist ''.html'' (lower s)" ..
  next
    assume "sublist ''.html'' (lower p)"
    then have "sublist ''.html'' (lower s)" using l by (rule sublist_order.order_trans)
    then show "sublist ''.pdf'' (lower s) \<or> sublist ''.html'' (lower s)" ..
  qed
qed

lemma endswith_doc_mentions: "endswith_doc s \<Longrightarrow> mentions_doc s"
  unfolding endswith_doc_def mentions_doc_def
  using suffix_imp_sublist [of "''.pdf''" "lower s"] suffix_imp_sublist [of "''.html''" "lower s"]
  by blast

lemma endswith_doc_not_Nil: "endswith_doc s \<Longrightarrow> s \<noteq> []"
  by (auto simp: endswith_doc_def lower_def)

lemma scan_parts_None: "\<forall>p \<in> set parts. \<not> mentions_doc p \<Longrightarrow> scan_parts parts = None"
  by (induction parts) auto

lemma find_append_case:
  "find P (xs @ ys) = (case find P xs of Some x \<Rightarrow> Some x | None \<Rightarrow> find P ys)"
  by (induction xs) auto

lemma find_none: "\<forall>x \<in> set xs. \<not> P x \<Longrightarrow> find P xs = None"
  by (induction xs) auto

lemma find_some_holds: "find P xs = Some x \<Longrightarrow> P x"
  by (induction xs) (auto split: if_splits)

lemma scan_parts_endswith_doc: "scan_parts parts = Some p \<Longrightarrow> endswith_doc p"
  by (induction parts)
     (auto simp: scan_segments_def split: if_splits option.splits dest: find_some_holds)

lemma parse_endswith_doc: "parse_file_path_from_entry x = Some p \<Longrightarrow> endswith_doc p"
  by (auto simp: parse_file_path_from_entry_def split: option.splits if_splits
           dest: scan_parts_endswith_doc)

lemma basename_append: "CHR ''/'' \<notin> set n \<Longrightarrow> basename (d @ CHR ''/'' # n) = n"
  by (simp add: basename_def takeWhile_append)

lemma basename_no_slash: "CHR ''/'' \<notin> set n \<Longrightarrow> basename n = n"
proof -
  assume "CHR ''/'' \<notin> set n"
  then have h: "takeWhile (\<lambda>c. c \<noteq> CHR ''/'') (rev n) = rev n"
    by (intro takeWhile_eq_all_conv [THEN iffD2]) auto
  show ?thesis unfolding basename_def h by (rule rev_rev_ident)
qed

section \<open>The resolver\<close>

lemma scan_segments_none:
  "\<forall>seg \<in> set (split_on CHR '':'' p). \<not> endswith_doc seg \<Longrightarrow> scan_segments p = None"
  by (simp add: scan_segments_def find_none)

lemma scan_parts_skip:
  "\<forall>p \<in> set earlier. scan_segments p = None \<Longrightarrow>
   scan_parts (earlier @ rest) = scan_parts rest"
  by (induction earlier) auto

lemma scan_segments_last:
  assumes "split_on CHR '':'' part = before @ path # after"
    and "endswith_doc path"
    and "\<forall>seg \<in> set after. \<not> endswith_doc seg"
  shows "scan_segments part = Some path"
  unfolding scan_segments_def assms(1) using assms(2,3)
  by (simp add: find_append_case find_none)


lemmas doc_eval = endswith_doc_def mentions_doc_def lower_def lower_char_def
  suffix_to_prefix sublist_code


text \<open>
  Claim C4 fails as stated: a field can contain a segment that ends in \<open>.pdf\<close> and
  follows a colon-delimited tag, and resolve to another segment, because an earlier part
  has such a segment or a later segment of the same part ends so.
\<close>

theorem parse_file_path_other_segment_wins:
  "parse_file_path_from_entry (Some '':a/b.pdf:PDF;:sub/dir/name.pdf:PDF'') = Some ''a/b.pdf''
   \<and> parse_file_path_from_entry (Some '':sub/dir/name.pdf:x.pdf'') = Some ''x.pdf''"
  by (simp add: parse_file_path_from_entry_def scan_segments_def doc_eval)


text \<open>
  Claim C4, as the code has it. The resolver returns the last segment ending in \<open>.pdf\<close>
  or \<open>.html\<close> (in any letter case) of the first semicolon-separated part that has such a
  segment: when no segment of an earlier part ends so, \<open>path\<close> is a colon-delimited
  segment of the part that ends so, and no segment after it in that part does, the
  result is exactly \<open>path\<close>, whatever stands before it in the part and whatever parts
  follow; and the basename of a path \<open>dir/name\<close> is \<open>name\<close>. The fields
  \<open>:sub/dir/name.pdf:PDF\<close> and \<open>PDF:sub/dir/name.pdf\<close> are instances.
\<close>

theorem parse_file_path_first_part_last_segment:
  assumes parts: "split_on CHR '';'' s = earlier @ part # later"
    and earlier: "\<forall>p \<in> set earlier. \<forall>seg \<in> set (split_on CHR '':'' p). \<not> endswith_doc seg"
    and segs: "split_on CHR '':'' part = before @ path # after"
    and doc: "endswith_doc path"
    and after: "\<forall>seg \<in> set after. \<not> endswith_doc seg"
  shows "parse_file_path_from_entry (Some s) = Some path
         \<and> (path = dir @ CHR ''/'' # nm \<and> CHR ''/'' \<notin> set nm \<longrightarrow> basename path = nm)"
proof -
  have "path \<in> set (split_on CHR '':'' part)" using segs by simp
  then have "sublist path part" by (rule split_on_sublist)
  then have m: "mentions_doc part"
    using doc endswith_doc_mentions [of path] mentions_doc_mono [of path part] by blast
  have ne: "s \<noteq> []"
  proof
    assume "s = []"
    then have "earlier @ part # later = [[]]" using parts by simp
    then have "part = []" by (cases earlier) auto
    then have "before @ path # after = [[]]" using segs by simp
    then have "path = []" by (cases before) auto
    then show False using doc endswith_doc_not_Nil by blast
  qed
  have "\<forall>p \<in> set earlier. scan_segments p = None"
    using earlier scan_segments_none by blast
  then have "scan_parts (earlier @ part # later) = scan_parts (part # later)"
    by (rule scan_parts_skip)
  also have "\<dots> = Some path"
    using m scan_segments_last [OF segs doc after] by simp
  finally have "parse_file_path_from_entry (Some s) = Some path"
    using ne parts by (simp add: parse_file_path_from_entry_def)
  then show ?thesis by (simp add: basename_append)
qed


theorem parse_file_path_first_part_last_segment_witness:
  "split_on CHR '';'' ''note:text;PDF:sub/dir/name.pdf:PDF;Snapshot:web/page.html:text/html''
     = [''note:text'', ''PDF:sub/dir/name.pdf:PDF'', ''Snapshot:web/page.html:text/html'']
   \<and> split_on CHR '':'' ''note:text'' = [''note'', ''text'']
   \<and> \<not> endswith_doc ''note'' \<and> \<not> endswith_doc ''text''
   \<and> split_on CHR '':'' ''PDF:sub/dir/name.pdf:PDF'' = [''PDF'', ''sub/dir/name.pdf'', ''PDF'']
   \<and> endswith_doc ''sub/dir/name.pdf'' \<and> \<not> endswith_doc ''PDF''
   \<and> parse_file_path_from_entry
         (Some ''note:text;PDF:sub/dir/name.pdf:PDF;Snapshot:web/page.html:text/html'')
       = Some ''sub/dir/name.pdf''
   \<and> basename ''sub/dir/name.pdf'' = ''name.pdf''
   \<and> parse_file_path_from_entry (Some '':sub/dir/name.pdf:PDF'') = Some ''sub/dir/name.pdf''
   \<and> parse_file_path_from_entry (Some ''PDF:sub/dir/name.pdf'') = Some ''sub/dir/name.pdf''"
proof -
  have p: "split_on CHR '';'' ''note:text;PDF:sub/dir/name.pdf:PDF;Snapshot:web/page.html:text/html''
     = [''note:text''] @ ''PDF:sub/dir/name.pdf:PDF'' # [''Snapshot:web/page.html:text/html'']"
    by simp
  have e: "split_on CHR '':'' ''note:text'' = [''note'', ''text'']" by simp
  have n: "\<not> endswith_doc ''note''" "\<not> endswith_doc ''text''" "\<not> endswith_doc ''PDF''"
    "\<not> endswith_doc []"
    by (simp_all add: doc_eval)
  have g: "split_on CHR '':'' ''PDF:sub/dir/name.pdf:PDF'' = [''PDF''] @ ''sub/dir/name.pdf'' # [''PDF'']"
    by simp
  have d: "endswith_doc ''sub/dir/name.pdf''" by (simp add: doc_eval)
  have e': "\<forall>p \<in> set [''note:text'']. \<forall>seg \<in> set (split_on CHR '':'' p). \<not> endswith_doc seg"
    using n by simp
  have a: "\<forall>seg \<in> set [''PDF'']. \<not> endswith_doc seg" using n by simp
  note t1 = parse_file_path_first_part_last_segment [OF p e' g d a, of "''sub/dir''" "''name.pdf''"]
  have p2: "split_on CHR '';'' '':sub/dir/name.pdf:PDF'' = [] @ '':sub/dir/name.pdf:PDF'' # []"
    by simp
  have g2: "split_on CHR '':'' '':sub/dir/name.pdf:PDF'' = [[]] @ ''sub/dir/name.pdf'' # [''PDF'']"
    by simp
  note t2 = parse_file_path_first_part_last_segment [OF p2 _ g2 d a, of "''sub/dir''" "''name.pdf''"]
  have p3: "split_on CHR '';'' ''PDF:sub/dir/name.pdf'' = [] @ ''PDF:sub/dir/name.pdf'' # []"
    by simp
  have g3: "split_on CHR '':'' ''PDF:sub/dir/name.pdf'' = [''PDF''] @ ''sub/dir/name.pdf'' # []"
    by simp
  note t3 = parse_file_path_first_part_last_segment [OF p3 _ g3 d, of "''sub/dir''" "''name.pdf''"]
  show ?thesis using t1 t2 t3 n d by simp
qed


text \<open>
  The converse: whatever the resolver returns is the last such segment of the first part
  that has one.
\<close>

lemma find_some_split:
  "find P xs = Some x \<Longrightarrow> \<exists>ys zs. xs = ys @ x # zs \<and> P x \<and> (\<forall>y \<in> set ys. \<not> P y)"
proof (induction xs)
  case Nil
  then show ?case by simp
next
  case (Cons a xs)
  show ?case
  proof (cases "P a")
    case True
    then have "a = x" using Cons.prems by simp
    then have "a # xs = [] @ x # xs \<and> P x \<and> (\<forall>y \<in> set []. \<not> P y)" using True by simp
    then show ?thesis by blast
  next
    case False
    then have "find P xs = Some x" using Cons.prems by simp
    then obtain ys zs where "xs = ys @ x # zs" "P x" "\<forall>y \<in> set ys. \<not> P y"
      using Cons.IH by blast
    then have "a # xs = (a # ys) @ x # zs \<and> P x \<and> (\<forall>y \<in> set (a # ys). \<not> P y)"
      using False by simp
    then show ?thesis by blast
  qed
qed

lemma find_none_all: "find P xs = None \<Longrightarrow> \<forall>x \<in> set xs. \<not> P x"
  by (induction xs) (auto split: if_splits)

lemma scan_segments_some_split:
  assumes "scan_segments part = Some path"
  shows "\<exists>before after. split_on CHR '':'' part = before @ path # after
           \<and> endswith_doc path \<and> (\<forall>seg \<in> set after. \<not> endswith_doc seg)"
proof -
  obtain ys zs where r: "rev (split_on CHR '':'' part) = ys @ path # zs"
    and d: "endswith_doc path" and n: "\<forall>y \<in> set ys. \<not> endswith_doc y"
    using find_some_split [OF assms [unfolded scan_segments_def]] by blast
  have "split_on CHR '':'' part = rev (ys @ path # zs)"
    using r by (metis rev_rev_ident)
  then have "split_on CHR '':'' part = rev zs @ path # rev ys" by simp
  moreover have "\<forall>seg \<in> set (rev ys). \<not> endswith_doc seg" using n by simp
  ultimately show ?thesis using d by blast
qed

lemma no_mention_no_segment:
  assumes "\<not> mentions_doc p"
  shows "\<forall>seg \<in> set (split_on CHR '':'' p). \<not> endswith_doc seg"
proof
  fix seg assume "seg \<in> set (split_on CHR '':'' p)"
  then have "sublist seg p" by (rule split_on_sublist)
  then show "\<not> endswith_doc seg"
    using assms endswith_doc_mentions [of seg] mentions_doc_mono [of seg p] by blast
qed

lemma scan_parts_some_split:
  "scan_parts parts = Some path \<Longrightarrow>
   \<exists>earlier part later. parts = earlier @ part # later
     \<and> (\<forall>p \<in> set earlier. \<forall>seg \<in> set (split_on CHR '':'' p). \<not> endswith_doc seg)
     \<and> scan_segments part = Some path"
proof (induction parts)
  case Nil
  then show ?case by simp
next
  case (Cons q parts)
  show ?case
  proof (cases "mentions_doc q \<and> scan_segments q = Some path")
    case True
    then have "q # parts = [] @ q # parts
        \<and> (\<forall>p \<in> set []. \<forall>seg \<in> set (split_on CHR '':'' p). \<not> endswith_doc seg)
        \<and> scan_segments q = Some path" by simp
    then show ?thesis by blast
  next
    case False
    have rest: "scan_parts parts = Some path" and
      none: "\<forall>seg \<in> set (split_on CHR '':'' q). \<not> endswith_doc seg"
    proof -
      show "scan_parts parts = Some path"
        using Cons.prems False by (auto split: if_splits option.splits)
      show "\<forall>seg \<in> set (split_on CHR '':'' q). \<not> endswith_doc seg"
      proof (cases "mentions_doc q")
        case True
        then have "scan_segments q = None"
          using Cons.prems False by (auto split: option.splits)
        then show ?thesis by (simp add: scan_segments_def find_none_all)
      next
        case False
        then show ?thesis by (rule no_mention_no_segment)
      qed
    qed
    obtain earlier part later where "parts = earlier @ part # later"
      "\<forall>p \<in> set earlier. \<forall>seg \<in> set (split_on CHR '':'' p). \<not> endswith_doc seg"
      "scan_segments part = Some path"
      using Cons.IH [OF rest] by blast
    then have "q # parts = (q # earlier) @ part # later
        \<and> (\<forall>p \<in> set (q # earlier). \<forall>seg \<in> set (split_on CHR '':'' p). \<not> endswith_doc seg)
        \<and> scan_segments part = Some path"
      using none by simp
    then show ?thesis by blast
  qed
qed

lemma parse_result_decomposition:
  assumes "parse_file_path_from_entry (Some s) = Some path"
  shows "\<exists>earlier part later before after.
           split_on CHR '';'' s = earlier @ part # later
           \<and> (\<forall>p \<in> set earlier. \<forall>seg \<in> set (split_on CHR '':'' p). \<not> endswith_doc seg)
           \<and> split_on CHR '':'' part = before @ path # after
           \<and> endswith_doc path
           \<and> (\<forall>seg \<in> set after. \<not> endswith_doc seg)"
proof -
  have "scan_parts (split_on CHR '';'' s) = Some path"
    using assms by (auto simp: parse_file_path_from_entry_def split: if_splits)
  then obtain earlier part later where a: "split_on CHR '';'' s = earlier @ part # later"
    "\<forall>p \<in> set earlier. \<forall>seg \<in> set (split_on CHR '':'' p). \<not> endswith_doc seg"
    "scan_segments part = Some path"
    using scan_parts_some_split by blast
  obtain before after where b: "split_on CHR '':'' part = before @ path # after"
    "endswith_doc path" "\<forall>seg \<in> set after. \<not> endswith_doc seg"
    using scan_segments_some_split [OF a(3)] by blast
  show ?thesis using a(1,2) b by blast
qed

text \<open>
  The shape \<open>pre:path:tag\<close> within a field that has no semicolon.
\<close>

lemma parse_file_path_tagged_shape:
  assumes pre: "CHR '';'' \<notin> set pre"
    and path: "CHR '';'' \<notin> set path" "CHR '':'' \<notin> set path"
    and tag: "CHR '';'' \<notin> set tag"
    and doc: "endswith_doc path"
    and tagdoc: "\<forall>seg \<in> set (split_on CHR '':'' tag). \<not> endswith_doc seg"
  shows "parse_file_path_from_entry (Some (pre @ CHR '':'' # path @ CHR '':'' # tag)) = Some path
         \<and> (path = dir @ CHR ''/'' # nm \<and> CHR ''/'' \<notin> set nm \<longrightarrow> basename path = nm)"
proof -
  let ?s = "pre @ CHR '':'' # path @ CHR '':'' # tag"
  have parts: "split_on CHR '';'' ?s = [?s]"
    using pre path tag by (intro split_on_no_sep) auto
  have "?s = (pre @ [CHR '':'']) @ path @ (CHR '':'' # tag)" by simp
  then have "sublist path ?s"
    using sublist_appendI [of path "pre @ [CHR '':'']" "CHR '':'' # tag"] by simp
  then have m: "mentions_doc ?s"
    using doc endswith_doc_mentions [of path] mentions_doc_mono [of path ?s] by blast
  have segs: "split_on CHR '':'' ?s = split_on CHR '':'' pre @ [path] @ split_on CHR '':'' tag"
    using path(2) by (simp add: split_on_append split_on_no_sep)
  have "scan_segments ?s = Some path"
    unfolding scan_segments_def segs using doc tagdoc
    by (simp add: find_append_case find_none)
  then have "parse_file_path_from_entry (Some ?s) = Some path"
    using parts m by (simp add: parse_file_path_from_entry_def)
  then show ?thesis by (simp add: basename_append)
qed

text \<open>
  Claim C5. An absent file field and an empty one resolve to nothing, and so does every
  file field none of whose semicolon-separated parts contains \<open>.pdf\<close> or \<open>.html\<close> in any
  letter case; that is the case in particular when the whole field contains neither. The
  result is the value \<open>None\<close>: the resolver has no error to raise.
\<close>

theorem parse_file_path_no_match:
  "parse_file_path_from_entry None = None \<and>
   parse_file_path_from_entry (Some []) = None \<and>
   ((\<forall>part \<in> set (split_on CHR '';'' s). \<not> mentions_doc part) \<longrightarrow>
      parse_file_path_from_entry (Some s) = None) \<and>
   (\<not> mentions_doc s \<longrightarrow> parse_file_path_from_entry (Some s) = None)"
proof -
  have a: "parse_file_path_from_entry (Some s) = None"
    if "\<forall>part \<in> set (split_on CHR '';'' s). \<not> mentions_doc part"
    using that by (simp add: parse_file_path_from_entry_def scan_parts_None)
  have b: "\<forall>part \<in> set (split_on CHR '';'' s). \<not> mentions_doc part" if "\<not> mentions_doc s"
  proof
    fix part assume "part \<in> set (split_on CHR '';'' s)"
    then have "sublist part s" by (rule split_on_sublist)
    then show "\<not> mentions_doc part" using that mentions_doc_mono [of part s] by blast
  qed
  show ?thesis using a b by (simp add: parse_file_path_from_entry_def)
qed

theorem parse_file_path_no_match_witness:
  "split_on CHR '';'' ''notes.txt:text;scan.PD F'' = [''notes.txt:text'', ''scan.PD F''] \<and>
   \<not> mentions_doc ''notes.txt:text'' \<and> \<not> mentions_doc ''scan.PD F'' \<and>
   \<not> mentions_doc ''notes.txt:text;scan.PD F'' \<and>
   parse_file_path_from_entry (Some ''notes.txt:text;scan.PD F'') = None"
proof -
  have s: "split_on CHR '';'' ''notes.txt:text;scan.PD F'' = [''notes.txt:text'', ''scan.PD F'']"
    by simp
  have m: "\<not> mentions_doc ''notes.txt:text''" "\<not> mentions_doc ''scan.PD F''"
    "\<not> mentions_doc ''notes.txt:text;scan.PD F''"
    by (simp_all add: mentions_doc_def lower_def lower_char_def sublist_code)
  have "\<forall>part \<in> set (split_on CHR '';'' ''notes.txt:text;scan.PD F''). \<not> mentions_doc part"
    unfolding s using m by simp
  then have "parse_file_path_from_entry (Some ''notes.txt:text;scan.PD F'') = None"
    using parse_file_path_no_match [of "''notes.txt:text;scan.PD F''"] by blast
  then show ?thesis using s m by simp
qed

section \<open>The index\<close>

lemma build_mapping_append:
  "build_mapping (a @ b) m = build_mapping b (build_mapping a m)"
  by (induction a arbitrary: m) auto

lemma add_entry_cases:
  "add_entry e m = m \<or> (\<exists>b k. add_entry e m = AList.update b k m)"
  by (auto simp: add_entry_def split: option.splits)

lemma add_entry_distinct: "distinct (map fst m) \<Longrightarrow> distinct (map fst (add_entry e m))"
  using add_entry_cases [of e m] by (auto simp: distinct_update)

lemma build_mapping_distinct:
  "distinct (map fst m) \<Longrightarrow> distinct (map fst (build_mapping es m))"
  by (induction es arbitrary: m) (auto simp: add_entry_distinct)

lemma add_entry_valid:
  assumes "e ''ID'' = Some k" "k \<noteq> []" "e ''file'' = Some f"
    and "parse_file_path_from_entry (Some f) = Some p"
  shows "add_entry e m = AList.update (basename p) k m"
proof -
  have "f \<noteq> []" using assms(4) by (auto simp: parse_file_path_from_entry_def)
  moreover have "p \<noteq> []" using assms(4) parse_endswith_doc endswith_doc_not_Nil by blast
  ultimately show ?thesis using assms by (simp add: add_entry_def)
qed

lemma add_entry_skipped:
  "e ''ID'' = None \<or> e ''ID'' = Some [] \<or> e ''file'' = None \<or> e ''file'' = Some []
   \<Longrightarrow> add_entry e m = m"
  by (auto simp: add_entry_def split: option.splits)

lemma add_entry_binding:
  "add_entry e m = (case entry_binding e of None \<Rightarrow> m | Some (b, k) \<Rightarrow> AList.update b k m)"
  by (auto simp: add_entry_def entry_binding_def split: option.splits)

lemma entry_binding_valid:
  assumes "e ''ID'' = Some k" "k \<noteq> []" "e ''file'' = Some f"
    and "parse_file_path_from_entry (Some f) = Some p"
  shows "entry_binding e = Some (basename p, k)"
  using add_entry_valid [OF assms, of "[]"] by (simp add: entry_binding_def)

lemma entry_binding_skipped:
  "e ''ID'' = None \<or> e ''ID'' = Some [] \<or> e ''file'' = None \<or> e ''file'' = Some []
   \<Longrightarrow> entry_binding e = None"
  using add_entry_skipped [of e "[]"] by (simp add: entry_binding_def)

lemma add_entry_other_key:
  assumes "\<forall>k. entry_binding e \<noteq> Some (b, k)"
  shows "map_of (add_entry e m) b = map_of m b"
  using assms by (auto simp: add_entry_binding update_conv' split: option.splits)

lemma build_mapping_other_keys:
  assumes "\<forall>e \<in> set es. \<forall>k. entry_binding e \<noteq> Some (b, k)"
  shows "map_of (build_mapping es m) b = map_of m b"
  using assms
proof (induction es arbitrary: m)
  case Nil
  show ?case by simp
next
  case (Cons e es)
  have "map_of (build_mapping es (add_entry e m)) b = map_of (add_entry e m) b"
    using Cons by simp
  also have "\<dots> = map_of m b"
    using Cons.prems by (intro add_entry_other_key) simp
  finally show ?case by simp
qed

lemma distinct_single_binding:
  "distinct (map fst m) \<Longrightarrow> map_of m b = Some k \<Longrightarrow> filter (\<lambda>kv. fst kv = b) m = [(b, k)]"
proof (induction m)
  case Nil
  then show ?case by simp
next
  case (Cons kv m)
  show ?case
  proof (cases "fst kv = b")
    case True
    then have "filter (\<lambda>kv. fst kv = b) m = []"
      using Cons.prems(1) by (auto simp: filter_empty_conv image_iff)
    then show ?thesis using True Cons.prems(2) by (cases kv) auto
  next
    case False
    then show ?thesis using Cons by (cases kv) auto
  qed
qed

text \<open>
  Claim C6. When two entries of the bibliography contribute the same basename and no
  entry after the second one does, the index has exactly one pair for that basename, and
  it carries the citation key of the second, later entry. An entry with a non-empty
  citation key whose file field resolves contributes the basename of the resolved path;
  an entry whose citation key or file field is missing or empty contributes nothing and
  the index is the same as without it. An empty index makes the function print the one
  warning and return; otherwise it prints nothing.
\<close>

theorem create_pdf_to_citekey_map_last_wins:
  "(entry_binding older = Some (b, older_key) \<and> entry_binding newer = Some (b, newer_key) \<and>
    (\<forall>e \<in> set after. \<forall>k. entry_binding e \<noteq> Some (b, k))
    \<longrightarrow> filter (\<lambda>kv. fst kv = b)
          (fst (create_pdf_to_citekey_map (before @ older # between @ newer # after))) = [(b, newer_key)])
   \<and> (e ''ID'' = Some k \<and> k \<noteq> [] \<and> e ''file'' = Some f \<and>
      parse_file_path_from_entry (Some f) = Some p
      \<longrightarrow> entry_binding e = Some (basename p, k))
   \<and> (e ''ID'' = None \<or> e ''ID'' = Some [] \<or> e ''file'' = None \<or> e ''file'' = Some []
      \<longrightarrow> entry_binding e = None \<and>
          create_pdf_to_citekey_map (earlier @ e # later)
          = create_pdf_to_citekey_map (earlier @ later))
   \<and> snd (create_pdf_to_citekey_map entries)
      = (if fst (create_pdf_to_citekey_map entries) = [] then [Print NoValidFileEntries] else [])"
proof -
  have a: "filter (\<lambda>kv. fst kv = b)
          (fst (create_pdf_to_citekey_map (before @ older # between @ newer # after))) = [(b, newer_key)]"
    if v: "entry_binding newer = Some (b, newer_key)"
      and l: "\<forall>e \<in> set after. \<forall>k. entry_binding e \<noteq> Some (b, k)"
  proof -
    let ?m = "build_mapping (before @ older # between) []"
    let ?all = "build_mapping (before @ older # between @ newer # after) []"
    have "?all = build_mapping after (add_entry newer ?m)"
      using build_mapping_append [of "before @ older # between" "newer # after" "[]"] by simp
    moreover have "map_of (build_mapping after (add_entry newer ?m)) b = map_of (add_entry newer ?m) b"
      using l by (rule build_mapping_other_keys)
    moreover have "map_of (add_entry newer ?m) b = Some newer_key"
      using v by (simp add: add_entry_binding update_conv')
    ultimately have "map_of ?all b = Some newer_key" by simp
    moreover have "distinct (map fst ?all)" by (simp add: build_mapping_distinct)
    ultimately have "filter (\<lambda>kv. fst kv = b) ?all = [(b, newer_key)]"
      by (intro distinct_single_binding)
    then show ?thesis by (simp add: create_pdf_to_citekey_map_def Let_def)
  qed
  have c: "create_pdf_to_citekey_map (earlier @ e # later)
          = create_pdf_to_citekey_map (earlier @ later)"
    if "e ''ID'' = None \<or> e ''ID'' = Some [] \<or> e ''file'' = None \<or> e ''file'' = Some []"
    using add_entry_skipped [OF that]
    by (simp add: create_pdf_to_citekey_map_def build_mapping_append)
  have d: "snd (create_pdf_to_citekey_map entries)
      = (if fst (create_pdf_to_citekey_map entries) = [] then [Print NoValidFileEntries] else [])"
    by (simp add: create_pdf_to_citekey_map_def Let_def)
  have r1: "entry_binding older = Some (b, older_key) \<and> entry_binding newer = Some (b, newer_key) \<and>
      (\<forall>e \<in> set after. \<forall>k. entry_binding e \<noteq> Some (b, k))
    \<longrightarrow> filter (\<lambda>kv. fst kv = b)
          (fst (create_pdf_to_citekey_map (before @ older # between @ newer # after))) = [(b, newer_key)]"
    using a by blast
  have r2: "e ''ID'' = Some k \<and> k \<noteq> [] \<and> e ''file'' = Some f \<and>
      parse_file_path_from_entry (Some f) = Some p
      \<longrightarrow> entry_binding e = Some (basename p, k)"
    using entry_binding_valid [of e k f p] by blast
  have r3: "e ''ID'' = None \<or> e ''ID'' = Some [] \<or> e ''file'' = None \<or> e ''file'' = Some []
      \<longrightarrow> entry_binding e = None \<and>
          create_pdf_to_citekey_map (earlier @ e # later)
          = create_pdf_to_citekey_map (earlier @ later)"
    using c entry_binding_skipped [of e] by blast
  show ?thesis by (rule conjI [OF r1 conjI [OF r2 conjI [OF r3 d]]])
qed


lemmas resolver_eval = add_entry_def parse_file_path_from_entry_def
       mentions_doc_def endswith_doc_def scan_segments_def lower_def lower_char_def
       sublist_code suffix_to_prefix basename_def

lemma example_bindings:
  "entry_binding example_entry = Some (''hayes2002.pdf'', ''hayes2002distributed'')"
  "entry_binding example_entry_dup = Some (''hayes2002.pdf'', ''hayes2002b'')"
  "entry_binding example_entry_nofile = None"
  "entry_binding example_entry_other = Some (''smith.HTML'', ''smith2010'')"
  by (simp_all add: entry_binding_def example_entry_def example_entry_dup_def
        example_entry_nofile_def example_entry_other_def resolver_eval)

theorem create_pdf_to_citekey_map_last_wins_witness:
  "entry_binding example_entry = Some (''hayes2002.pdf'', ''hayes2002distributed'') \<and>
   entry_binding example_entry_dup = Some (''hayes2002.pdf'', ''hayes2002b'') \<and>
   entry_binding example_entry_other = Some (''smith.HTML'', ''smith2010'') \<and>
   filter (\<lambda>kv. fst kv = ''hayes2002.pdf'')
     (fst (create_pdf_to_citekey_map
            [example_entry, example_entry_nofile, example_entry_dup, example_entry_other]))
     = [(''hayes2002.pdf'', ''hayes2002b'')] \<and>
   example_entry_nofile ''file'' = None \<and>
   entry_binding example_entry_nofile = None \<and>
   create_pdf_to_citekey_map [example_entry, example_entry_nofile, example_entry_dup]
     = create_pdf_to_citekey_map [example_entry, example_entry_dup] \<and>
   fst (create_pdf_to_citekey_map [example_entry_nofile]) = [] \<and>
   snd (create_pdf_to_citekey_map [example_entry_nofile]) = [Print NoValidFileEntries]"
proof -
  note t = create_pdf_to_citekey_map_last_wins [where older = example_entry and newer = example_entry_dup
      and b = "''hayes2002.pdf''" and older_key = "''hayes2002distributed''"
      and newer_key = "''hayes2002b''" and before = "[]" and between = "[example_entry_nofile]"
      and after = "[example_entry_other]" and e = example_entry_nofile
      and earlier = "[example_entry]" and later = "[example_entry_dup]"
      and entries = "[example_entry_nofile]"]
  have nofile: "example_entry_nofile ''file'' = None"
    by (simp add: example_entry_nofile_def)
  have empty: "fst (create_pdf_to_citekey_map [example_entry_nofile]) = []"
    by (simp add: create_pdf_to_citekey_map_def add_entry_def example_entry_nofile_def)
  show ?thesis using t nofile empty by (simp add: example_bindings)
qed

section \<open>The key of a document\<close>

lemma resolve_absent:
  "pdf_file \<notin> fst ` set pdf_citekey_map \<Longrightarrow>
   resolve_citekey pdf_citekey_map pdf_file = (splitext_root pdf_file, CitekeyFallback pdf_file)"
  by (simp add: resolve_citekey_def map_of_eq_None_iff [THEN iffD2])

text \<open>
  Claim C7. A document whose file name is not a key of the index gets its file name
  without the extension as its key, the notice printed for it is the fallback warning,
  and its processing goes on with that key: the iteration is the two prints followed by
  the \<open>try\<close> run with the stem.
\<close>

theorem citekey_fallback_when_absent:
  assumes "pdf_file \<notin> fst ` set pdf_citekey_map"
  shows "resolve_citekey pdf_citekey_map pdf_file
           = (splitext_root pdf_file, CitekeyFallback pdf_file)
         \<and> process_file env master_prompt siunitx_manual_file pdf_citekey_map pdf_file
           = [Print (Processing pdf_file), Print (CitekeyFallback pdf_file)]
             @ fst (try_body env master_prompt siunitx_manual_file pdf_file
                      (splitext_root pdf_file))
             @ (case snd (try_body env master_prompt siunitx_manual_file pdf_file
                            (splitext_root pdf_file)) of
                  Some e \<Rightarrow> [Print (ProcessingError pdf_file e), Print SkippingFile]
                | None \<Rightarrow> [Sleep 2])"
  using resolve_absent [OF assms]
  by (simp add: process_file_def split: prod.splits)

text \<open>
  Claim C10. A document whose file name is a key of the index, mapped to a citation key
  equal to the file name without its extension, still gets the fallback warning: the
  notice is chosen by comparing the key with the stem.
\<close>

theorem citekey_fallback_when_key_is_stem:
  assumes "map_of pdf_citekey_map pdf_file = Some (splitext_root pdf_file)"
  shows "resolve_citekey pdf_citekey_map pdf_file
           = (splitext_root pdf_file, CitekeyFallback pdf_file)
         \<and> take 2 (process_file env master_prompt siunitx_manual_file pdf_citekey_map pdf_file)
           = [Print (Processing pdf_file), Print (CitekeyFallback pdf_file)]"
  using assms by (simp add: resolve_citekey_def process_file_def split: prod.splits)

theorem citekey_fallback_when_absent_witness:
  "''smith.HTML'' \<notin> fst ` set [(''hayes2002.pdf'', ''hayes2002distributed'')] \<and>
   resolve_citekey [(''hayes2002.pdf'', ''hayes2002distributed'')] ''smith.HTML''
     = (''smith'', CitekeyFallback ''smith.HTML'')"
  using citekey_fallback_when_absent [of "''smith.HTML''" "[(''hayes2002.pdf'', ''hayes2002distributed'')]"]
  by (simp add: splitext_root_def basename_def)

theorem citekey_fallback_when_key_is_stem_witness:
  "map_of [(''hayes2002.pdf'', ''hayes2002'')] ''hayes2002.pdf'' = Some ''hayes2002'' \<and>
   resolve_citekey [(''hayes2002.pdf'', ''hayes2002'')] ''hayes2002.pdf''
     = (''hayes2002'', CitekeyFallback ''hayes2002.pdf'')"
  using citekey_fallback_when_key_is_stem [of "[(''hayes2002.pdf'', ''hayes2002'')]" "''hayes2002.pdf''"]
  by (simp add: splitext_root_def basename_def)

section \<open>Traces\<close>

lemma delete_calls_append: "delete_calls (a @ b) = delete_calls a @ delete_calls b"
  by (induction a rule: delete_calls.induct) auto

lemma generate_requests_append:
  "generate_requests (a @ b) = generate_requests a @ generate_requests b"
  by (induction a rule: generate_requests.induct) auto

lemma sink_after_append: "sink_after sink (a @ b) = sink_after (sink_after sink a) b"
  by (induction sink a rule: sink_after.induct) auto

lemma setup_directories_quiet:
  "filter document_event (fst (setup_directories env)) = []"
  "delete_calls (fst (setup_directories env)) = []"
  "generate_requests (fst (setup_directories env)) = []"
  "sink_after sink (fst (setup_directories env)) = sink"
  by (auto simp: setup_directories_def split: option.splits)

lemma create_map_quiet:
  "filter document_event (snd (create_pdf_to_citekey_map entries)) = []"
  "delete_calls (snd (create_pdf_to_citekey_map entries)) = []"
  "generate_requests (snd (create_pdf_to_citekey_map entries)) = []"
  "sink_after sink (snd (create_pdf_to_citekey_map entries)) = sink"
  by (auto simp: create_pdf_to_citekey_map_def Let_def)

lemma upload_manual_quiet:
  "filter document_event (snd (upload_manual env)) = []"
  "delete_calls (snd (upload_manual env)) = []"
  "generate_requests (snd (upload_manual env)) = []"
  "sink_after sink (snd (upload_manual env)) = sink"
  by (auto simp: upload_manual_def split: sum.splits)

lemma main_prompt_missing:
  assumes "snd (setup_directories env) = None" "prompt_file env = FileNotFound"
  shows "main env = ([Print PipelineInitialized] @ fst (setup_directories env)
                      @ [Print PromptNotFound], Returned)"
  using assms by (cases "setup_directories env") (simp add: main_def)

lemma main_bib_missing:
  assumes "snd (setup_directories env) = None" "prompt_file env = Ok master_prompt"
    "bib_file env = FileNotFound"
  shows "main env = ([Print PipelineInitialized] @ fst (setup_directories env)
                      @ [Print PromptLoaded, Print BibNotFound], Returned)"
  using assms by (cases "setup_directories env") (simp add: main_def)

lemma main_bib_unparseable:
  assumes "snd (setup_directories env) = None" "prompt_file env = Ok master_prompt"
    "bib_file env = OtherError e"
  shows "main env = ([Print PipelineInitialized] @ fst (setup_directories env)
                      @ [Print PromptLoaded, Print (BibParseFailed e)], Returned)"
  using assms by (cases "setup_directories env") (simp add: main_def)

lemma main_input_dir_missing:
  assumes "snd (setup_directories env) = None" "prompt_file env = Ok master_prompt"
    "bib_file env = Ok entries" "listdir env = FileNotFound"
  shows "main env = ([Print PipelineInitialized] @ fst (setup_directories env)
                      @ [Print PromptLoaded] @ snd (create_pdf_to_citekey_map entries)
                      @ snd (upload_manual env) @ [Print InputDirMissing], Returned)"
  using assms
  by (cases "setup_directories env"; cases "create_pdf_to_citekey_map entries";
      cases "upload_manual env") (simp add: main_def)

lemma main_no_papers:
  assumes "snd (setup_directories env) = None" "prompt_file env = Ok master_prompt"
    "bib_file env = Ok entries" "listdir env = Ok names" "filter endswith_doc names = []"
  shows "main env = ([Print PipelineInitialized] @ fst (setup_directories env)
                      @ [Print PromptLoaded] @ snd (create_pdf_to_citekey_map entries)
                      @ snd (upload_manual env) @ [Print NoNewPapers], Returned)"
  using assms
  by (cases "setup_directories env"; cases "create_pdf_to_citekey_map entries";
      cases "upload_manual env") (simp add: main_def)

lemma main_loop:
  assumes "snd (setup_directories env) = None" "prompt_file env = Ok master_prompt"
    "bib_file env = Ok entries" "listdir env = Ok names" "filter endswith_doc names \<noteq> []"
  shows "main env = ([Print PipelineInitialized] @ fst (setup_directories env)
                      @ [Print PromptLoaded] @ snd (create_pdf_to_citekey_map entries)
                      @ snd (upload_manual env)
                      @ [Print (FoundFiles (filter endswith_doc names)), InitModel MODEL]
                      @ process_files env master_prompt (fst (upload_manual env))
                          (fst (create_pdf_to_citekey_map entries)) (filter endswith_doc names)
                      @ fst (finish env (fst (upload_manual env))),
                     snd (finish env (fst (upload_manual env))))"
  using assms
  by (cases "setup_directories env"; cases "create_pdf_to_citekey_map entries";
      cases "upload_manual env"; cases "finish env (fst (upload_manual env))")
     (simp add: main_def Let_def)

lemma run_script_configured:
  assumes "env_api_key env = Some k" "k \<noteq> []"
  shows "run_script env = ([Configure k, Print ConfiguredFromEnv] @ fst (main env),
                           exit_status (snd (main env)))"
  using assms by (cases "main env") (simp add: run_script_def)

lemma run_script_no_key:
  assumes "env_api_key env = None \<or> env_api_key env = Some []"
  shows "run_script env = ([Print ApiKeyNotFound], 1)"
  using assms by (auto simp: run_script_def API_KEY_PLACEHOLDER_def)


lemmas example_eval =
  example_env_def example_upload_def example_entry_def setup_directories_def
  create_pdf_to_citekey_map_def upload_manual_def finish_def exit_status_def
  PAPERS_TO_READ_DIR_def READ_PAPERS_DIR_def SIUNITX_MANUAL_def SUMMARIES_FILE_def MODEL_def


section \<open>Fatal conditions and the empty scan\<close>

text \<open>
  Claim C2 at a failing input: the API key is set and the prompt file is missing. The
  script prints the diagnostic, \<open>main\<close> returns at line 124, and the process ends with
  exit status 0, where the credential check of lines 47 to 52 ends with \<open>sys.exit(1)\<close>.
\<close>

theorem missing_prompt_exits_zero:
  "prompt_file (example_env\<lparr>prompt_file := FileNotFound\<rparr>) = FileNotFound \<and>
   run_script (example_env\<lparr>prompt_file := FileNotFound\<rparr>)
     = ([Configure ''secret'', Print ConfiguredFromEnv, Print PipelineInitialized,
         MakeDirs ''papers_to_read'', MakeDirs ''read_papers'', MakeDirs ''assets'',
         Print DirectoriesSetUp, Print PromptNotFound], 0)"
  by (simp add: run_script_def main_def example_eval)

text \<open>
  What the script does on each fatal condition. Without an API key (the variable unset
  or empty, the placeholder unchanged) it prints the diagnostic and exits with status 1,
  and \<open>main\<close> never runs. With a key, a missing prompt file, a missing bibliography, a
  bibliography that fails to parse and a missing input directory each end \<open>main\<close> by a
  plain \<open>return\<close> after their diagnostic: the last print is that diagnostic, no event of
  the document loop is in the trace, and the exit status of the process is 0.
\<close>

lemma fatal_setup_stops_before_documents:
  "(env_api_key env = None \<or> env_api_key env = Some []
      \<longrightarrow> run_script env = ([Print ApiKeyNotFound], 1))
   \<and> (env_api_key env = Some k \<and> k \<noteq> [] \<and> snd (setup_directories env) = None
      \<and> prompt_file env = FileNotFound
      \<longrightarrow> snd (run_script env) = 0
          \<and> last (fst (run_script env)) = Print PromptNotFound
          \<and> filter document_event (fst (run_script env)) = [])
   \<and> (env_api_key env = Some k \<and> k \<noteq> [] \<and> snd (setup_directories env) = None
      \<and> prompt_file env = Ok master_prompt \<and> bib_file env = FileNotFound
      \<longrightarrow> snd (run_script env) = 0
          \<and> last (fst (run_script env)) = Print BibNotFound
          \<and> filter document_event (fst (run_script env)) = [])
   \<and> (env_api_key env = Some k \<and> k \<noteq> [] \<and> snd (setup_directories env) = None
      \<and> prompt_file env = Ok master_prompt \<and> bib_file env = OtherError e
      \<longrightarrow> snd (run_script env) = 0
          \<and> last (fst (run_script env)) = Print (BibParseFailed e)
          \<and> filter document_event (fst (run_script env)) = [])
   \<and> (env_api_key env = Some k \<and> k \<noteq> [] \<and> snd (setup_directories env) = None
      \<and> prompt_file env = Ok master_prompt \<and> bib_file env = Ok entries
      \<and> listdir env = FileNotFound
      \<longrightarrow> snd (run_script env) = 0
          \<and> last (fst (run_script env)) = Print InputDirMissing
          \<and> filter document_event (fst (run_script env)) = [])"
proof -
  have a: "env_api_key env = None \<or> env_api_key env = Some []
      \<longrightarrow> run_script env = ([Print ApiKeyNotFound], 1)"
    using run_script_no_key [of env] by blast
  have b: "env_api_key env = Some k \<and> k \<noteq> [] \<and> snd (setup_directories env) = None
      \<and> prompt_file env = FileNotFound
      \<longrightarrow> snd (run_script env) = 0
          \<and> last (fst (run_script env)) = Print PromptNotFound
          \<and> filter document_event (fst (run_script env)) = []"
  proof
    assume h: "env_api_key env = Some k \<and> k \<noteq> [] \<and> snd (setup_directories env) = None
      \<and> prompt_file env = FileNotFound"
    then have key: "env_api_key env = Some k" "k \<noteq> []"
      and dirs: "snd (setup_directories env) = None"
      and h1: "prompt_file env = FileNotFound" by simp_all
    show "snd (run_script env) = 0
          \<and> last (fst (run_script env)) = Print PromptNotFound
          \<and> filter document_event (fst (run_script env)) = []"
      unfolding run_script_configured [OF key] main_prompt_missing [OF dirs h1]
      by (simp add: exit_status_def setup_directories_quiet)
  qed
  have c: "env_api_key env = Some k \<and> k \<noteq> [] \<and> snd (setup_directories env) = None
      \<and> prompt_file env = Ok master_prompt \<and> bib_file env = FileNotFound
      \<longrightarrow> snd (run_script env) = 0
          \<and> last (fst (run_script env)) = Print BibNotFound
          \<and> filter document_event (fst (run_script env)) = []"
  proof
    assume h: "env_api_key env = Some k \<and> k \<noteq> [] \<and> snd (setup_directories env) = None
      \<and> prompt_file env = Ok master_prompt \<and> bib_file env = FileNotFound"
    then have key: "env_api_key env = Some k" "k \<noteq> []"
      and dirs: "snd (setup_directories env) = None"
      and h1: "prompt_file env = Ok master_prompt"
      and h2: "bib_file env = FileNotFound" by simp_all
    show "snd (run_script env) = 0
          \<and> last (fst (run_script env)) = Print BibNotFound
          \<and> filter document_event (fst (run_script env)) = []"
      unfolding run_script_configured [OF key] main_bib_missing [OF dirs h1 h2]
      by (simp add: exit_status_def setup_directories_quiet)
  qed
  have d: "env_api_key env = Some k \<and> k \<noteq> [] \<and> snd (setup_directories env) = None
      \<and> prompt_file env = Ok master_prompt \<and> bib_file env = OtherError e
      \<longrightarrow> snd (run_script env) = 0
          \<and> last (fst (run_script env)) = Print (BibParseFailed e)
          \<and> filter document_event (fst (run_script env)) = []"
  proof
    assume h: "env_api_key env = Some k \<and> k \<noteq> [] \<and> snd (setup_directories env) = None
      \<and> prompt_file env = Ok master_prompt \<and> bib_file env = OtherError e"
    then have key: "env_api_key env = Some k" "k \<noteq> []"
      and dirs: "snd (setup_directories env) = None"
      and h1: "prompt_file env = Ok master_prompt"
      and h2: "bib_file env = OtherError e" by simp_all
    show "snd (run_script env) = 0
          \<and> last (fst (run_script env)) = Print (BibParseFailed e)
          \<and> filter document_event (fst (run_script env)) = []"
      unfolding run_script_configured [OF key] main_bib_unparseable [OF dirs h1 h2]
      by (simp add: exit_status_def setup_directories_quiet)
  qed
  have f: "env_api_key env = Some k \<and> k \<noteq> [] \<and> snd (setup_directories env) = None
      \<and> prompt_file env = Ok master_prompt \<and> bib_file env = Ok entries
      \<and> listdir env = FileNotFound
      \<longrightarrow> snd (run_script env) = 0
          \<and> last (fst (run_script env)) = Print InputDirMissing
          \<and> filter document_event (fst (run_script env)) = []"
  proof
    assume h: "env_api_key env = Some k \<and> k \<noteq> [] \<and> snd (setup_directories env) = None
      \<and> prompt_file env = Ok master_prompt \<and> bib_file env = Ok entries
      \<and> listdir env = FileNotFound"
    then have key: "env_api_key env = Some k" "k \<noteq> []"
      and dirs: "snd (setup_directories env) = None"
      and h1: "prompt_file env = Ok master_prompt"
      and h2: "bib_file env = Ok entries"
      and h3: "listdir env = FileNotFound" by simp_all
    show "snd (run_script env) = 0
          \<and> last (fst (run_script env)) = Print InputDirMissing
          \<and> filter document_event (fst (run_script env)) = []"
      unfolding run_script_configured [OF key] main_input_dir_missing [OF dirs h1 h2 h3]
      by (simp add: exit_status_def setup_directories_quiet create_map_quiet
            upload_manual_quiet)
  qed
  show ?thesis by (rule conjI [OF a conjI [OF b conjI [OF c conjI [OF d f]]]])
qed

lemma fatal_setup_examples:
  "run_script (example_env\<lparr>env_api_key := None\<rparr>) = ([Print ApiKeyNotFound], 1)
   \<and> snd (run_script (example_env\<lparr>prompt_file := FileNotFound\<rparr>)) = 0
   \<and> last (fst (run_script (example_env\<lparr>prompt_file := FileNotFound\<rparr>))) = Print PromptNotFound
   \<and> snd (run_script (example_env\<lparr>bib_file := FileNotFound\<rparr>)) = 0
   \<and> last (fst (run_script (example_env\<lparr>bib_file := FileNotFound\<rparr>))) = Print BibNotFound
   \<and> snd (run_script (example_env\<lparr>bib_file := OtherError ''unbalanced braces''\<rparr>)) = 0
   \<and> last (fst (run_script (example_env\<lparr>bib_file := OtherError ''unbalanced braces''\<rparr>)))
       = Print (BibParseFailed ''unbalanced braces'')
   \<and> snd (run_script (example_env\<lparr>listdir := FileNotFound\<rparr>)) = 0
   \<and> last (fst (run_script (example_env\<lparr>listdir := FileNotFound\<rparr>))) = Print InputDirMissing
   \<and> filter document_event (fst (run_script (example_env\<lparr>listdir := FileNotFound\<rparr>))) = []"
proof -
  have s: "snd (setup_directories (example_env\<lparr>prompt_file := FileNotFound\<rparr>)) = None"
    "snd (setup_directories (example_env\<lparr>bib_file := FileNotFound\<rparr>)) = None"
    "snd (setup_directories (example_env\<lparr>bib_file := OtherError ''unbalanced braces''\<rparr>)) = None"
    "snd (setup_directories (example_env\<lparr>listdir := FileNotFound\<rparr>)) = None"
    by (simp_all add: example_eval)
  show ?thesis
    using fatal_setup_stops_before_documents [of "example_env\<lparr>env_api_key := None\<rparr>"]
      fatal_setup_stops_before_documents
        [of "example_env\<lparr>prompt_file := FileNotFound\<rparr>" "''secret''"]
      fatal_setup_stops_before_documents
        [of "example_env\<lparr>bib_file := FileNotFound\<rparr>" "''secret''" "''Summarise the paper.''"]
      fatal_setup_stops_before_documents
        [of "example_env\<lparr>bib_file := OtherError ''unbalanced braces''\<rparr>" "''secret''"
            "''Summarise the paper.''" "''unbalanced braces''"]
      fatal_setup_stops_before_documents
        [of "example_env\<lparr>listdir := FileNotFound\<rparr>" "''secret''" "''Summarise the paper.''"
            _ "[example_entry]"]
      s
    by (simp add: example_env_def)
qed

text \<open>
  Claim C9. When the directories, the prompt and the bibliography were set up and the
  scan of the input directory gives no name ending in \<open>.pdf\<close> or \<open>.html\<close>, \<open>main\<close>
  returns (exit status 0), its last print is the no-new-papers notice, its trace has no
  event of the document loop and no generation request, and the output file is as before.
\<close>

theorem empty_scan_ends_quietly:
  assumes "snd (setup_directories env) = None" "prompt_file env = Ok master_prompt"
    "bib_file env = Ok entries" "listdir env = Ok names" "filter endswith_doc names = []"
  shows "snd (main env) = Returned
         \<and> exit_status (snd (main env)) = 0
         \<and> last (fst (main env)) = Print NoNewPapers
         \<and> filter document_event (fst (main env)) = []
         \<and> generate_requests (fst (main env)) = []
         \<and> sink_after sink (fst (main env)) = sink"
  unfolding main_no_papers [OF assms]
  by (simp add: exit_status_def setup_directories_quiet create_map_quiet upload_manual_quiet
        generate_requests_append sink_after_append)

theorem empty_scan_ends_quietly_witness:
  "filter endswith_doc [''notes.txt'', ''README''] = [] \<and>
   main (example_env\<lparr>listdir := Ok [''notes.txt'', ''README'']\<rparr>)
     = ([Print PipelineInitialized, MakeDirs ''papers_to_read'', MakeDirs ''read_papers'',
         MakeDirs ''assets'', Print DirectoriesSetUp, Print PromptLoaded,
         Print UploadingManual, UploadFile ''assets/siunitx.pdf'' ''siunitx.pdf'',
         Print (ManualUploaded ''uri/assets/siunitx.pdf''), Print NoNewPapers], Returned) \<and>
   sink_after ''old'' (fst (main (example_env\<lparr>listdir := Ok [''notes.txt'', ''README'']\<rparr>)))
     = ''old''"
proof -
  let ?env = "example_env\<lparr>listdir := Ok [''notes.txt'', ''README'']\<rparr>"
  have f: "filter endswith_doc [''notes.txt'', ''README''] = []"
    by (simp add: endswith_doc_def lower_def lower_char_def suffix_to_prefix)
  have s: "snd (setup_directories ?env) = None"
    by (simp add: example_eval)
  have p: "prompt_file ?env = Ok ''Summarise the paper.''"
    and b: "bib_file ?env = Ok [example_entry]"
    and l: "listdir ?env = Ok [''notes.txt'', ''README'']"
    by (simp_all add: example_env_def)
  have m: "main ?env = ([Print PipelineInitialized, MakeDirs ''papers_to_read'', MakeDirs ''read_papers'',
         MakeDirs ''assets'', Print DirectoriesSetUp, Print PromptLoaded,
         Print UploadingManual, UploadFile ''assets/siunitx.pdf'' ''siunitx.pdf'',
         Print (ManualUploaded ''uri/assets/siunitx.pdf''), Print NoNewPapers], Returned)"
    unfolding main_no_papers [OF s p b l f]
    by (simp add: example_eval add_entry_def resolver_eval)
  show ?thesis using empty_scan_ends_quietly [OF s p b l f, of "''old''"] f m by simp
qed

section \<open>The reference manual\<close>

text \<open>
  Claim C1 at the failing input: the reference manual is uploaded, the input directory
  holds no document, and \<open>main\<close> returns at line 161 without a single remote delete.
\<close>

theorem manual_not_deleted_on_empty_scan:
  "fst (upload_manual (example_env\<lparr>listdir := Ok [''notes.txt'']\<rparr>))
     = Some (Handle ''files/siunitx.pdf'' ''uri/assets/siunitx.pdf'') \<and>
   main (example_env\<lparr>listdir := Ok [''notes.txt'']\<rparr>)
     = ([Print PipelineInitialized, MakeDirs ''papers_to_read'', MakeDirs ''read_papers'',
         MakeDirs ''assets'', Print DirectoriesSetUp, Print PromptLoaded,
         Print UploadingManual, UploadFile ''assets/siunitx.pdf'' ''siunitx.pdf'',
         Print (ManualUploaded ''uri/assets/siunitx.pdf''), Print NoNewPapers], Returned) \<and>
   delete_calls (fst (main (example_env\<lparr>listdir := Ok [''notes.txt'']\<rparr>))) = []"
proof -
  let ?env = "example_env\<lparr>listdir := Ok [''notes.txt'']\<rparr>"
  have u: "upload_manual ?env = (Some (Handle ''files/siunitx.pdf'' ''uri/assets/siunitx.pdf''),
      [Print UploadingManual, UploadFile ''assets/siunitx.pdf'' ''siunitx.pdf'',
       Print (ManualUploaded ''uri/assets/siunitx.pdf'')])"
    by (simp add: example_eval basename_def)
  have f: "filter endswith_doc [''notes.txt''] = []"
    by (simp add: endswith_doc_def lower_def lower_char_def suffix_to_prefix)
  have s: "snd (setup_directories ?env) = None"
    by (simp add: example_eval)
  have p: "prompt_file ?env = Ok ''Summarise the paper.''"
    and b: "bib_file ?env = Ok [example_entry]"
    and l: "listdir ?env = Ok [''notes.txt'']"
    by (simp_all add: example_env_def)
  have m: "main ?env = ([Print PipelineInitialized, MakeDirs ''papers_to_read'', MakeDirs ''read_papers'',
         MakeDirs ''assets'', Print DirectoriesSetUp, Print PromptLoaded,
         Print UploadingManual, UploadFile ''assets/siunitx.pdf'' ''siunitx.pdf'',
         Print (ManualUploaded ''uri/assets/siunitx.pdf''), Print NoNewPapers], Returned)"
    unfolding main_no_papers [OF s p b l f] u
    by (simp add: example_eval add_entry_def resolver_eval)
  show ?thesis unfolding m u by simp
qed

section \<open>The document loop\<close>

lemma try_body_generate_requests:
  "generate_requests (fst (try_body env mp sm f ck))
     = (case upload_file env (path_join PAPERS_TO_READ_DIR f) f of
          Inr h \<Rightarrow> [prompt_parts mp sm h]
        | Inl e \<Rightarrow> [])"
  by (simp add: try_body_def Let_def split: sum.splits option.splits)

lemma process_file_generate_requests:
  "generate_requests (process_file env mp sm m f)
     = (case upload_file env (path_join PAPERS_TO_READ_DIR f) f of
          Inr h \<Rightarrow> [prompt_parts mp sm h]
        | Inl e \<Rightarrow> [])"
proof -
  obtain ck notice where r: "resolve_citekey m f = (ck, notice)"
    by (cases "resolve_citekey m f")
  obtain evs err where t: "try_body env mp sm f ck = (evs, err)"
    by (cases "try_body env mp sm f ck")
  have "generate_requests evs = generate_requests (fst (try_body env mp sm f ck))"
    using t by simp
  then show ?thesis
    unfolding try_body_generate_requests
    by (simp add: process_file_def r t generate_requests_append split: option.splits)
qed

lemma process_files_generate_requests:
  "generate_requests (process_files env mp sm m fs)
     = map (prompt_parts mp sm) (uploaded_handles env fs)"
  by (induction fs)
     (auto simp: generate_requests_append process_file_generate_requests split: sum.splits)

lemma try_body_delete_calls:
  "set (delete_calls (fst (try_body env mp sm f ck)))
     \<subseteq> handle_name ` set (uploaded_handles env [f])"
  by (simp add: try_body_def Let_def split: sum.splits option.splits)

lemma process_file_delete_calls:
  "set (delete_calls (process_file env mp sm m f))
     \<subseteq> handle_name ` set (uploaded_handles env [f])"
proof -
  obtain ck notice where r: "resolve_citekey m f = (ck, notice)"
    by (cases "resolve_citekey m f")
  obtain evs err where t: "try_body env mp sm f ck = (evs, err)"
    by (cases "try_body env mp sm f ck")
  have "delete_calls evs = delete_calls (fst (try_body env mp sm f ck))"
    using t by simp
  then have "set (delete_calls evs) \<subseteq> handle_name ` set (uploaded_handles env [f])"
    using try_body_delete_calls [of env mp sm f ck] by simp
  then show ?thesis
    by (simp add: process_file_def r t delete_calls_append split: option.splits)
qed

lemma uploaded_handles_Cons:
  "set (uploaded_handles env (f # fs)) = set (uploaded_handles env [f]) \<union> set (uploaded_handles env fs)"
  by (simp split: sum.splits)

lemma process_files_delete_calls:
  "set (delete_calls (process_files env mp sm m fs))
     \<subseteq> handle_name ` set (uploaded_handles env fs)"
proof (induction fs)
  case Nil
  show ?case by simp
next
  case (Cons f fs)
  show ?case
    using Cons process_file_delete_calls [of env mp sm m f]
    unfolding uploaded_handles_Cons [of env f fs]
    by (auto simp: delete_calls_append)
qed

lemma try_body_no_manual_delete: "Print DeletingManual \<notin> set (fst (try_body env mp sm f ck))"
  by (simp add: try_body_def Let_def split: sum.splits option.splits)

lemma process_file_no_manual_delete: "Print DeletingManual \<notin> set (process_file env mp sm m f)"
proof -
  obtain ck notice where r: "resolve_citekey m f = (ck, notice)"
    by (cases "resolve_citekey m f")
  obtain evs err where t: "try_body env mp sm f ck = (evs, err)"
    by (cases "try_body env mp sm f ck")
  have "Print DeletingManual \<notin> set evs"
    using try_body_no_manual_delete [of env mp sm f ck] t by simp
  moreover have "notice \<noteq> DeletingManual"
    using r by (auto simp: resolve_citekey_def Let_def split: if_splits)
  ultimately show ?thesis
    by (simp add: process_file_def r t split: option.splits)
qed

lemma process_files_no_manual_delete:
  "Print DeletingManual \<notin> set (process_files env mp sm m fs)"
  by (induction fs) (auto simp: process_file_no_manual_delete)

lemma startup_no_manual_delete:
  "Print DeletingManual \<notin> set (fst (setup_directories env))"
  "Print DeletingManual \<notin> set (snd (create_pdf_to_citekey_map entries))"
  "Print DeletingManual \<notin> set (snd (upload_manual env))"
  by (auto simp: setup_directories_def create_pdf_to_citekey_map_def Let_def upload_manual_def
           split: option.splits sum.splits)

lemma upload_manual_absent: "\<not> manual_exists env \<Longrightarrow> upload_manual env = (None, [Print ManualNotFound])"
  by (simp add: upload_manual_def)


lemma main_generate_requests:
  assumes "snd (setup_directories env) = None" "prompt_file env = Ok master_prompt"
    "bib_file env = Ok entries" "listdir env = Ok names"
  shows "generate_requests (fst (main env))
           = map (prompt_parts master_prompt (fst (upload_manual env)))
               (uploaded_handles env (filter endswith_doc names))"
proof (cases "filter endswith_doc names = []")
  case True
  show ?thesis
    unfolding main_no_papers [OF assms True]
    by (simp add: True generate_requests_append setup_directories_quiet create_map_quiet
          upload_manual_quiet)
next
  case False
  have "generate_requests (fst (finish env sm)) = []" for sm
    by (simp add: finish_def split: option.splits)
  then show ?thesis
    unfolding main_loop [OF assms False]
    by (simp add: generate_requests_append setup_directories_quiet create_map_quiet
          upload_manual_quiet process_files_generate_requests)
qed

lemma main_without_manual:
  assumes "snd (setup_directories env) = None" "prompt_file env = Ok master_prompt"
    "bib_file env = Ok entries" "listdir env = Ok names" "fst (upload_manual env) = None"
  shows "Print DeletingManual \<notin> set (fst (main env))"
    and "set (delete_calls (fst (main env)))
           \<subseteq> handle_name ` set (uploaded_handles env (filter endswith_doc names))"
proof -
  note a = assms(1-4)
  have fin: "finish env (fst (upload_manual env)) = ([Print PipelineFinished], Returned)"
    by (simp add: finish_def assms(5))
  show "Print DeletingManual \<notin> set (fst (main env))"
  proof (cases "filter endswith_doc names = []")
    case True
    show ?thesis
      unfolding main_no_papers [OF a True]
      by (simp add: startup_no_manual_delete)
  next
    case False
    show ?thesis
      unfolding main_loop [OF a False] fin
      by (simp add: startup_no_manual_delete process_files_no_manual_delete)
  qed
  show "set (delete_calls (fst (main env)))
           \<subseteq> handle_name ` set (uploaded_handles env (filter endswith_doc names))"
  proof (cases "filter endswith_doc names = []")
    case True
    show ?thesis
      unfolding main_no_papers [OF a True]
      by (simp add: delete_calls_append setup_directories_quiet create_map_quiet
            upload_manual_quiet)
  next
    case False
    show ?thesis
      unfolding main_loop [OF a False] fin
      using process_files_delete_calls
      by (simp add: delete_calls_append setup_directories_quiet create_map_quiet
            upload_manual_quiet)
  qed
qed

text \<open>
  Claim C8. The generation requests of a run are, in order, one for each document whose
  upload succeeded, and the payload of each is the prompt, then the handle of the
  reference manual if one was uploaded, then the handle of the document. When the manual
  does not exist locally there is no manual handle, every payload is the prompt and the
  document, \<open>main\<close> never announces the deletion of the manual, and every remote delete
  of the run is the delete of an uploaded document.
\<close>

theorem generation_payload:
  assumes "snd (setup_directories env) = None" "prompt_file env = Ok master_prompt"
    "bib_file env = Ok entries" "listdir env = Ok names"
  shows "generate_requests (fst (main env))
           = map (prompt_parts master_prompt (fst (upload_manual env)))
               (uploaded_handles env (filter endswith_doc names))
       \<and> (fst (upload_manual env) = Some manual \<longrightarrow>
            prompt_parts master_prompt (fst (upload_manual env)) h
              = [Text master_prompt, FileRef manual, FileRef h])
       \<and> (\<not> manual_exists env \<longrightarrow>
            fst (upload_manual env) = None
            \<and> prompt_parts master_prompt (fst (upload_manual env)) h
                = [Text master_prompt, FileRef h]
            \<and> Print DeletingManual \<notin> set (fst (main env))
            \<and> set (delete_calls (fst (main env)))
                \<subseteq> handle_name ` set (uploaded_handles env (filter endswith_doc names)))"
proof -
  have a: "generate_requests (fst (main env))
           = map (prompt_parts master_prompt (fst (upload_manual env)))
               (uploaded_handles env (filter endswith_doc names))"
    by (rule main_generate_requests [OF assms])
  have b: "fst (upload_manual env) = Some manual \<longrightarrow>
            prompt_parts master_prompt (fst (upload_manual env)) h
              = [Text master_prompt, FileRef manual, FileRef h]"
    by (simp add: prompt_parts_def)
  have c: "\<not> manual_exists env \<longrightarrow>
            fst (upload_manual env) = None
            \<and> prompt_parts master_prompt (fst (upload_manual env)) h
                = [Text master_prompt, FileRef h]
            \<and> Print DeletingManual \<notin> set (fst (main env))
            \<and> set (delete_calls (fst (main env)))
                \<subseteq> handle_name ` set (uploaded_handles env (filter endswith_doc names))"
  proof
    assume "\<not> manual_exists env"
    then have n: "fst (upload_manual env) = None" by (simp add: upload_manual_absent)
    show "fst (upload_manual env) = None
            \<and> prompt_parts master_prompt (fst (upload_manual env)) h
                = [Text master_prompt, FileRef h]
            \<and> Print DeletingManual \<notin> set (fst (main env))
            \<and> set (delete_calls (fst (main env)))
                \<subseteq> handle_name ` set (uploaded_handles env (filter endswith_doc names))"
      using main_without_manual [OF assms n] n by (simp add: prompt_parts_def)
  qed
  show ?thesis by (rule conjI [OF a conjI [OF b c]])
qed


lemma process_files_append:
  "process_files env mp sm m (a @ b) = process_files env mp sm m a @ process_files env mp sm m b"
  by (induction a) auto

lemma process_file_sublist:
  "f \<in> set fs \<Longrightarrow> sublist (process_file env mp sm m f) (process_files env mp sm m fs)"
proof -
  assume "f \<in> set fs"
  then obtain a b where "fs = a @ f # b" by (auto simp: in_set_conv_decomp)
  then have "process_files env mp sm m fs
      = process_files env mp sm m a @ process_file env mp sm m f @ process_files env mp sm m b"
    by (simp add: process_files_append)
  then show ?thesis by (simp add: sublist_appendI)
qed

lemma process_file_failed:
  assumes "snd (try_body env mp sm d (fst (resolve_citekey m d))) = Some e"
  shows "process_file env mp sm m d
           = [Print (Processing d), Print (snd (resolve_citekey m d))]
             @ fst (try_body env mp sm d (fst (resolve_citekey m d)))
             @ [Print (ProcessingError d e), Print SkippingFile]"
proof -
  obtain ck notice where r: "resolve_citekey m d = (ck, notice)"
    by (cases "resolve_citekey m d")
  obtain evs err where t: "try_body env mp sm d ck = (evs, err)"
    by (cases "try_body env mp sm d ck")
  have "err = Some e" using assms r t by simp
  then show ?thesis by (simp add: process_file_def r t)
qed

lemma try_body_fails_iff:
  "(snd (try_body env mp sm f ck) = Some x) =
     (upload_file env (path_join PAPERS_TO_READ_DIR f) f = Inl x
      \<or> (\<exists>h. upload_file env (path_join PAPERS_TO_READ_DIR f) f = Inr h \<and>
           (generate_content env (prompt_parts mp sm h) = Inl x
            \<or> (\<exists>r. generate_content env (prompt_parts mp sm h) = Inr r \<and>
                 (sink_open_error env f = Some x
                  \<or> sink_open_error env f = None \<and>
                     (response_text r = Inl x
                      \<or> (\<exists>t. response_text r = Inr t \<and>
                           (move_error env (path_join PAPERS_TO_READ_DIR f)
                              (path_join READ_PAPERS_DIR f) = Some x
                            \<or> move_error env (path_join PAPERS_TO_READ_DIR f)
                                 (path_join READ_PAPERS_DIR f) = None
                               \<and> delete_error env (handle_name h) = Some x))))))))"
  by (simp add: try_body_def Let_def split: sum.splits option.splits)

lemma try_body_complete:
  assumes "upload_file env (path_join PAPERS_TO_READ_DIR f) f = Inr h"
    and "generate_content env (prompt_parts mp sm h) = Inr r"
    and "sink_open_error env f = None"
    and "response_text r = Inr t"
    and "move_error env (path_join PAPERS_TO_READ_DIR f) (path_join READ_PAPERS_DIR f) = None"
  shows "try_body env mp sm f ck =
           ([Print UploadingPaper, UploadFile (path_join PAPERS_TO_READ_DIR f) f,
             Print (PaperUploaded (handle_uri h)), Print GeneratingSummary,
             GenerateContent (prompt_parts mp sm h) 600,
             Print SavingSummary, OpenAppend SUMMARIES_FILE,
             WriteSink (summary_header ck), WriteSink t, WriteSink summary_separator,
             Print (SummaryAppended ck), Print ArchivingFile,
             MoveFile (path_join PAPERS_TO_READ_DIR f) (path_join READ_PAPERS_DIR f),
             Print (MovedFile f), Print DeletingPaper, DeleteFile (handle_name h)],
            delete_error env (handle_name h))"
  using assms by (simp add: try_body_def Let_def)

lemma process_file_complete:
  assumes "upload_file env (path_join PAPERS_TO_READ_DIR f) f = Inr h"
    and "generate_content env (prompt_parts mp sm h) = Inr r"
    and "sink_open_error env f = None"
    and "response_text r = Inr t"
    and "move_error env (path_join PAPERS_TO_READ_DIR f) (path_join READ_PAPERS_DIR f) = None"
  shows "prefix
           [Print (Processing f), Print (snd (resolve_citekey m f)),
            Print UploadingPaper, UploadFile (path_join PAPERS_TO_READ_DIR f) f,
            Print (PaperUploaded (handle_uri h)), Print GeneratingSummary,
            GenerateContent (prompt_parts mp sm h) 600,
            Print SavingSummary, OpenAppend SUMMARIES_FILE,
            WriteSink (summary_header (fst (resolve_citekey m f))), WriteSink t,
            WriteSink summary_separator,
            Print (SummaryAppended (fst (resolve_citekey m f))), Print ArchivingFile,
            MoveFile (path_join PAPERS_TO_READ_DIR f) (path_join READ_PAPERS_DIR f),
            Print (MovedFile f), Print DeletingPaper, DeleteFile (handle_name h)]
           (process_file env mp sm m f)"
proof -
  obtain ck notice where r: "resolve_citekey m f = (ck, notice)"
    by (cases "resolve_citekey m f")
  show ?thesis
    by (simp add: process_file_def r try_body_complete [OF assms])
qed


lemma main_deletes_manual_after_loop:
  assumes "snd (setup_directories env) = None" "prompt_file env = Ok master_prompt"
    "bib_file env = Ok entries" "listdir env = Ok names" "filter endswith_doc names \<noteq> []"
    "fst (upload_manual env) = Some manual"
  shows "delete_calls (fst (main env))
           = delete_calls (process_files env master_prompt (Some manual)
                             (fst (create_pdf_to_citekey_map entries))
                             (filter endswith_doc names))
             @ [handle_name manual]"
    and "suffix (fst (finish env (Some manual))) (fst (main env))"
proof -
  have d: "delete_calls (fst (finish env (Some manual))) = [handle_name manual]"
    by (simp add: finish_def split: option.splits)
  show "delete_calls (fst (main env))
           = delete_calls (process_files env master_prompt (Some manual)
                             (fst (create_pdf_to_citekey_map entries))
                             (filter endswith_doc names))
             @ [handle_name manual]"
    unfolding main_loop [OF assms(1-5)] assms(6)
    by (simp add: delete_calls_append setup_directories_quiet create_map_quiet
          upload_manual_quiet d)
  show "suffix (fst (finish env (Some manual))) (fst (main env))"
    unfolding main_loop [OF assms(1-5)] assms(6)
    by (simp add: suffix_def)
qed

lemmas loop_eval =
  process_file_def try_body_def resolve_citekey_def prompt_parts_def path_join_def
  splitext_root_def basename_def prefix_code suffix_to_prefix Let_def

lemma example_filter:
  "filter endswith_doc [''hayes2002.pdf'', ''notes.txt'', ''smith.HTML''] = [''hayes2002.pdf'', ''smith.HTML'']"
  by (simp add: endswith_doc_def lower_def lower_char_def suffix_to_prefix)

lemma example_uploaded_handles:
  "uploaded_handles (example_env\<lparr>manual_exists := x\<rparr>) [''hayes2002.pdf'', ''smith.HTML'']
     = [Handle ''files/hayes2002.pdf'' ''uri/papers_to_read/hayes2002.pdf'',
        Handle ''files/smith.HTML'' ''uri/papers_to_read/smith.HTML'']"
  by (simp add: example_eval path_join_def prefix_code suffix_to_prefix)

theorem generation_payload_witness:
  "generate_requests (fst (main (example_env\<lparr>manual_exists := True\<rparr>)))
     = [[Text ''Summarise the paper.'',
         FileRef (Handle ''files/siunitx.pdf'' ''uri/assets/siunitx.pdf''),
         FileRef (Handle ''files/hayes2002.pdf'' ''uri/papers_to_read/hayes2002.pdf'')],
        [Text ''Summarise the paper.'',
         FileRef (Handle ''files/siunitx.pdf'' ''uri/assets/siunitx.pdf''),
         FileRef (Handle ''files/smith.HTML'' ''uri/papers_to_read/smith.HTML'')]]
   \<and> generate_requests (fst (main (example_env\<lparr>manual_exists := False\<rparr>)))
     = [[Text ''Summarise the paper.'',
         FileRef (Handle ''files/hayes2002.pdf'' ''uri/papers_to_read/hayes2002.pdf'')],
        [Text ''Summarise the paper.'',
         FileRef (Handle ''files/smith.HTML'' ''uri/papers_to_read/smith.HTML'')]]
   \<and> Print DeletingManual \<notin> set (fst (main (example_env\<lparr>manual_exists := False\<rparr>)))"
proof -
  have s: "snd (setup_directories (example_env\<lparr>manual_exists := x\<rparr>)) = None" for x
    by (simp add: example_eval)
  have p: "prompt_file (example_env\<lparr>manual_exists := x\<rparr>) = Ok ''Summarise the paper.''"
    and b: "bib_file (example_env\<lparr>manual_exists := x\<rparr>) = Ok [example_entry]"
    and l: "listdir (example_env\<lparr>manual_exists := x\<rparr>)
              = Ok [''hayes2002.pdf'', ''notes.txt'', ''smith.HTML'']" for x
    by (simp_all add: example_env_def)
  have m: "fst (upload_manual (example_env\<lparr>manual_exists := True\<rparr>))
             = Some (Handle ''files/siunitx.pdf'' ''uri/assets/siunitx.pdf'')"
    by (simp add: example_eval basename_def)
  have n: "\<not> manual_exists (example_env\<lparr>manual_exists := False\<rparr>)"
    by simp
  note with_manual =
    generation_payload [OF s p b l, of True, unfolded example_filter example_uploaded_handles m]
  note without_manual =
    generation_payload [OF s p b l, of False, unfolded example_filter example_uploaded_handles]
  show ?thesis
    using with_manual without_manual n by (simp add: prompt_parts_def)
qed


text \<open>
  Claim C3. When the \<open>try\<close> of a document ends with an exception, the loop prints the
  error with the name of the document and the skip notice, and then runs on the
  documents after it: the trace of the loop is the trace of the documents before, the
  failed attempt with its report, and the trace of the documents after. Every later
  document has its whole iteration in the trace, and a document whose upload,
  generation, opening of the output file, response text and move succeed is uploaded,
  summarized, written to the output file and moved to the archive, whatever happened to
  the documents before it. The \<open>try\<close> ends with an exception exactly when the upload,
  the generation, the opening of the output file, the reading of the response text, the
  move or the remote delete raises. In \<open>main\<close> the loop over all documents is followed
  by the final cleanup, and \<open>main\<close> ends as that cleanup ends.
\<close>

theorem document_failure_does_not_abort_batch:
  "(snd (try_body env mp sm d (fst (resolve_citekey m d))) = Some e \<longrightarrow>
      process_files env mp sm m (before @ d # after)
        = process_files env mp sm m before
          @ [Print (Processing d), Print (snd (resolve_citekey m d))]
          @ fst (try_body env mp sm d (fst (resolve_citekey m d)))
          @ [Print (ProcessingError d e), Print SkippingFile]
          @ process_files env mp sm m after)
   \<and> (d' \<in> set after \<longrightarrow>
        sublist (process_file env mp sm m d') (process_files env mp sm m (before @ d # after)))
   \<and> (upload_file env (path_join PAPERS_TO_READ_DIR d') d' = Inr h
      \<and> generate_content env (prompt_parts mp sm h) = Inr r
      \<and> sink_open_error env d' = None
      \<and> response_text r = Inr t
      \<and> move_error env (path_join PAPERS_TO_READ_DIR d') (path_join READ_PAPERS_DIR d') = None
      \<longrightarrow> prefix
           [Print (Processing d'), Print (snd (resolve_citekey m d')),
            Print UploadingPaper, UploadFile (path_join PAPERS_TO_READ_DIR d') d',
            Print (PaperUploaded (handle_uri h)), Print GeneratingSummary,
            GenerateContent (prompt_parts mp sm h) 600,
            Print SavingSummary, OpenAppend SUMMARIES_FILE,
            WriteSink (summary_header (fst (resolve_citekey m d'))), WriteSink t,
            WriteSink summary_separator,
            Print (SummaryAppended (fst (resolve_citekey m d'))), Print ArchivingFile,
            MoveFile (path_join PAPERS_TO_READ_DIR d') (path_join READ_PAPERS_DIR d'),
            Print (MovedFile d'), Print DeletingPaper, DeleteFile (handle_name h)]
           (process_file env mp sm m d'))
   \<and> ((snd (try_body env mp sm f ck) = Some x) =
       (upload_file env (path_join PAPERS_TO_READ_DIR f) f = Inl x
        \<or> (\<exists>h. upload_file env (path_join PAPERS_TO_READ_DIR f) f = Inr h \<and>
             (generate_content env (prompt_parts mp sm h) = Inl x
              \<or> (\<exists>r. generate_content env (prompt_parts mp sm h) = Inr r \<and>
                   (sink_open_error env f = Some x
                    \<or> sink_open_error env f = None \<and>
                       (response_text r = Inl x
                        \<or> (\<exists>t. response_text r = Inr t \<and>
                             (move_error env (path_join PAPERS_TO_READ_DIR f)
                                (path_join READ_PAPERS_DIR f) = Some x
                              \<or> move_error env (path_join PAPERS_TO_READ_DIR f)
                                   (path_join READ_PAPERS_DIR f) = None
                                 \<and> delete_error env (handle_name h) = Some x)))))))))
   \<and> (snd (setup_directories env) = None \<and> prompt_file env = Ok master_prompt
      \<and> bib_file env = Ok entries \<and> listdir env = Ok names
      \<and> filter endswith_doc names = before @ d # after
      \<longrightarrow> snd (main env) = snd (finish env (fst (upload_manual env)))
          \<and> sublist
               (process_files env master_prompt (fst (upload_manual env))
                  (fst (create_pdf_to_citekey_map entries)) (before @ d # after)
                @ fst (finish env (fst (upload_manual env))))
               (fst (main env)))"
proof -
  have a: "snd (try_body env mp sm d (fst (resolve_citekey m d))) = Some e \<longrightarrow>
      process_files env mp sm m (before @ d # after)
        = process_files env mp sm m before
          @ [Print (Processing d), Print (snd (resolve_citekey m d))]
          @ fst (try_body env mp sm d (fst (resolve_citekey m d)))
          @ [Print (ProcessingError d e), Print SkippingFile]
          @ process_files env mp sm m after"
  proof
    assume "snd (try_body env mp sm d (fst (resolve_citekey m d))) = Some e"
    then show "process_files env mp sm m (before @ d # after)
        = process_files env mp sm m before
          @ [Print (Processing d), Print (snd (resolve_citekey m d))]
          @ fst (try_body env mp sm d (fst (resolve_citekey m d)))
          @ [Print (ProcessingError d e), Print SkippingFile]
          @ process_files env mp sm m after"
      by (simp add: process_files_append process_file_failed)
  qed
  have b: "d' \<in> set after \<longrightarrow>
        sublist (process_file env mp sm m d') (process_files env mp sm m (before @ d # after))"
    by (simp add: process_file_sublist)
  have c: "upload_file env (path_join PAPERS_TO_READ_DIR d') d' = Inr h
      \<and> generate_content env (prompt_parts mp sm h) = Inr r
      \<and> sink_open_error env d' = None
      \<and> response_text r = Inr t
      \<and> move_error env (path_join PAPERS_TO_READ_DIR d') (path_join READ_PAPERS_DIR d') = None
      \<longrightarrow> prefix
           [Print (Processing d'), Print (snd (resolve_citekey m d')),
            Print UploadingPaper, UploadFile (path_join PAPERS_TO_READ_DIR d') d',
            Print (PaperUploaded (handle_uri h)), Print GeneratingSummary,
            GenerateContent (prompt_parts mp sm h) 600,
            Print SavingSummary, OpenAppend SUMMARIES_FILE,
            WriteSink (summary_header (fst (resolve_citekey m d'))), WriteSink t,
            WriteSink summary_separator,
            Print (SummaryAppended (fst (resolve_citekey m d'))), Print ArchivingFile,
            MoveFile (path_join PAPERS_TO_READ_DIR d') (path_join READ_PAPERS_DIR d'),
            Print (MovedFile d'), Print DeletingPaper, DeleteFile (handle_name h)]
           (process_file env mp sm m d')"
    using process_file_complete [of env d' h mp sm r t m] by blast
  note i = try_body_fails_iff [of env mp sm f ck x]
  have g: "snd (setup_directories env) = None \<and> prompt_file env = Ok master_prompt
      \<and> bib_file env = Ok entries \<and> listdir env = Ok names
      \<and> filter endswith_doc names = before @ d # after
      \<longrightarrow> snd (main env) = snd (finish env (fst (upload_manual env)))
          \<and> sublist
               (process_files env master_prompt (fst (upload_manual env))
                  (fst (create_pdf_to_citekey_map entries)) (before @ d # after)
                @ fst (finish env (fst (upload_manual env))))
               (fst (main env))"
  proof
    assume h: "snd (setup_directories env) = None \<and> prompt_file env = Ok master_prompt
      \<and> bib_file env = Ok entries \<and> listdir env = Ok names
      \<and> filter endswith_doc names = before @ d # after"
    then have h1: "snd (setup_directories env) = None"
      and h2: "prompt_file env = Ok master_prompt"
      and h3: "bib_file env = Ok entries"
      and h4: "listdir env = Ok names"
      and h5: "filter endswith_doc names = before @ d # after" by simp_all
    have ne: "filter endswith_doc names \<noteq> []" using h5 by simp
    show "snd (main env) = snd (finish env (fst (upload_manual env)))
          \<and> sublist
               (process_files env master_prompt (fst (upload_manual env))
                  (fst (create_pdf_to_citekey_map entries)) (before @ d # after)
                @ fst (finish env (fst (upload_manual env))))
               (fst (main env))"
      unfolding main_loop [OF h1 h2 h3 h4 ne] h5
      by (simp add: suffix_def)
  qed
  show ?thesis by (rule conjI [OF a conjI [OF b conjI [OF c conjI [OF i g]]]])
qed


lemma example_failing_try:
  "try_body (example_env\<lparr>generate_content := example_generate\<rparr>) ''Summarise the paper.''
     (Some (Handle ''files/siunitx.pdf'' ''uri/assets/siunitx.pdf'')) ''hayes2002.pdf''
     ''hayes2002distributed''
   = ([Print UploadingPaper, UploadFile ''papers_to_read/hayes2002.pdf'' ''hayes2002.pdf'',
       Print (PaperUploaded ''uri/papers_to_read/hayes2002.pdf''), Print GeneratingSummary,
       GenerateContent
         [Text ''Summarise the paper.'',
          FileRef (Handle ''files/siunitx.pdf'' ''uri/assets/siunitx.pdf''),
          FileRef (Handle ''files/hayes2002.pdf'' ''uri/papers_to_read/hayes2002.pdf'')] 600],
      Some ''quota exceeded'')"
  by (simp add: loop_eval example_eval example_generate_def)

lemma example_second_file:
  "process_file (example_env\<lparr>generate_content := example_generate\<rparr>) ''Summarise the paper.''
     (Some (Handle ''files/siunitx.pdf'' ''uri/assets/siunitx.pdf''))
     [(''hayes2002.pdf'', ''hayes2002distributed'')] ''smith.HTML''
   = [Print (Processing ''smith.HTML''), Print (CitekeyFallback ''smith.HTML''),
      Print UploadingPaper, UploadFile ''papers_to_read/smith.HTML'' ''smith.HTML'',
      Print (PaperUploaded ''uri/papers_to_read/smith.HTML''), Print GeneratingSummary,
      GenerateContent
        [Text ''Summarise the paper.'',
         FileRef (Handle ''files/siunitx.pdf'' ''uri/assets/siunitx.pdf''),
         FileRef (Handle ''files/smith.HTML'' ''uri/papers_to_read/smith.HTML'')] 600,
      Print SavingSummary, OpenAppend ''paper_summaries.txt'',
      WriteSink (summary_header ''smith''), WriteSink ''A summary.'',
      WriteSink summary_separator, Print (SummaryAppended ''smith''), Print ArchivingFile,
      MoveFile ''papers_to_read/smith.HTML'' ''read_papers/smith.HTML'',
      Print (MovedFile ''smith.HTML''), Print DeletingPaper, DeleteFile ''files/smith.HTML'',
      Sleep 2]"
  by (simp add: loop_eval example_eval example_generate_def)

theorem document_failure_does_not_abort_batch_witness:
  "snd (try_body (example_env\<lparr>generate_content := example_generate\<rparr>)
          ''Summarise the paper.''
          (Some (Handle ''files/siunitx.pdf'' ''uri/assets/siunitx.pdf'')) ''hayes2002.pdf''
          ''hayes2002distributed'') = Some ''quota exceeded''
   \<and> process_files (example_env\<lparr>generate_content := example_generate\<rparr>)
       ''Summarise the paper.''
       (Some (Handle ''files/siunitx.pdf'' ''uri/assets/siunitx.pdf''))
       [(''hayes2002.pdf'', ''hayes2002distributed'')] [''hayes2002.pdf'', ''smith.HTML'']
     = [Print (Processing ''hayes2002.pdf''), Print (FoundCitekey ''hayes2002distributed''),
        Print UploadingPaper, UploadFile ''papers_to_read/hayes2002.pdf'' ''hayes2002.pdf'',
        Print (PaperUploaded ''uri/papers_to_read/hayes2002.pdf''), Print GeneratingSummary,
        GenerateContent
          [Text ''Summarise the paper.'',
           FileRef (Handle ''files/siunitx.pdf'' ''uri/assets/siunitx.pdf''),
           FileRef (Handle ''files/hayes2002.pdf'' ''uri/papers_to_read/hayes2002.pdf'')] 600,
        Print (ProcessingError ''hayes2002.pdf'' ''quota exceeded''), Print SkippingFile,
        Print (Processing ''smith.HTML''), Print (CitekeyFallback ''smith.HTML''),
        Print UploadingPaper, UploadFile ''papers_to_read/smith.HTML'' ''smith.HTML'',
        Print (PaperUploaded ''uri/papers_to_read/smith.HTML''), Print GeneratingSummary,
        GenerateContent
          [Text ''Summarise the paper.'',
           FileRef (Handle ''files/siunitx.pdf'' ''uri/assets/siunitx.pdf''),
           FileRef (Handle ''files/smith.HTML'' ''uri/papers_to_read/smith.HTML'')] 600,
        Print SavingSummary, OpenAppend ''paper_summaries.txt'',
        WriteSink (summary_header ''smith''), WriteSink ''A summary.'',
        WriteSink summary_separator, Print (SummaryAppended ''smith''), Print ArchivingFile,
        MoveFile ''papers_to_read/smith.HTML'' ''read_papers/smith.HTML'',
        Print (MovedFile ''smith.HTML''), Print DeletingPaper, DeleteFile ''files/smith.HTML'',
        Sleep 2]
   \<and> snd (main (example_env\<lparr>generate_content := example_generate\<rparr>)) = Returned"
proof -
  let ?env = "example_env\<lparr>generate_content := example_generate\<rparr>"
  let ?sm = "Some (Handle ''files/siunitx.pdf'' ''uri/assets/siunitx.pdf'')"
  let ?m = "[(''hayes2002.pdf'', ''hayes2002distributed'')]"
  have r: "resolve_citekey ?m ''hayes2002.pdf''
             = (''hayes2002distributed'', FoundCitekey ''hayes2002distributed'')"
    by (simp add: resolve_citekey_def splitext_root_def basename_def Let_def)
  have s: "snd (setup_directories ?env) = None"
    by (simp add: example_eval)
  have p: "prompt_file ?env = Ok ''Summarise the paper.''"
    and b: "bib_file ?env = Ok [example_entry]"
    and l: "listdir ?env = Ok [''hayes2002.pdf'', ''notes.txt'', ''smith.HTML'']"
    by (simp_all add: example_env_def)
  have f: "filter endswith_doc [''hayes2002.pdf'', ''notes.txt'', ''smith.HTML'']
             = [] @ ''hayes2002.pdf'' # [''smith.HTML'']"
    unfolding example_filter by simp
  have u: "fst (upload_manual ?env) = ?sm"
    by (simp add: example_eval basename_def)
  have fin: "snd (finish ?env ?sm) = Returned"
    by (simp add: finish_def example_env_def)
  note t = document_failure_does_not_abort_batch [where env = ?env and mp = "''Summarise the paper.''" and sm = ?sm and m = ?m
      and d = "''hayes2002.pdf''" and e = "''quota exceeded''" and before = "[]"
      and after = "[''smith.HTML'']" and master_prompt = "''Summarise the paper.''"
      and entries = "[example_entry]"
      and names = "[''hayes2002.pdf'', ''notes.txt'', ''smith.HTML'']"]
  have fail: "snd (try_body ?env ''Summarise the paper.'' ?sm ''hayes2002.pdf''
                (fst (resolve_citekey ?m ''hayes2002.pdf''))) = Some ''quota exceeded''"
    by (simp add: r example_failing_try)
  have loop: "process_files ?env ''Summarise the paper.'' ?sm ?m ([] @ ''hayes2002.pdf'' # [''smith.HTML''])
        = process_files ?env ''Summarise the paper.'' ?sm ?m []
          @ [Print (Processing ''hayes2002.pdf''), Print (snd (resolve_citekey ?m ''hayes2002.pdf''))]
          @ fst (try_body ?env ''Summarise the paper.'' ?sm ''hayes2002.pdf''
                   (fst (resolve_citekey ?m ''hayes2002.pdf'')))
          @ [Print (ProcessingError ''hayes2002.pdf'' ''quota exceeded''), Print SkippingFile]
          @ process_files ?env ''Summarise the paper.'' ?sm ?m [''smith.HTML'']"
    using t fail by blast
  have out: "snd (main ?env) = snd (finish ?env (fst (upload_manual ?env)))"
    using t s p b l f by blast
  show ?thesis
    using loop out
    by (simp add: r example_failing_try example_second_file u fin)
qed

end
